theory Spec2Isabelle
  imports Main "HOL-Library.Word"
begin

section \<open>Stack traces (namespace \<open>my_backtrace\<close> of \<open>cpp/traced_task/main.cpp\<close>)\<close>

text \<open>
  Addresses are pointer-sized values (\<open>void *\<close>, \<open>uintptr_t\<close>) of a 64-bit target. A C
  string pointer is a \<open>string option\<close>, \<open>None\<close> being the null pointer.
\<close>

type_synonym addr = "64 word"

record SymbolicInfo =
  symbol :: string
  fileName :: string
  offset :: addr

record StackFrame =
  address :: addr
  symbolicInfo :: SymbolicInfo

type_synonym StackTrace = "StackFrame list"

text \<open>What \<open>dladdr\<close> fills in (\<open>dli_saddr\<close> is never read by the program).\<close>

record Dl_info =
  dli_fname :: "string option"
  dli_fbase :: "addr option"
  dli_sname :: "string option"

text \<open>
  The platform services the program calls and does not define: \<open>dladdr\<close> (\<open>None\<close> when it
  returns 0), \<open>abi::__cxa_demangle\<close> (the returned pointer and the status it writes),
  \<open>backtrace_symbols\<close> (whether its array could be allocated, and the text it gives for an
  address), the text \<open>operator<<\<close> prints for a \<open>void *\<close>, and the return addresses
  that are on the native stack when \<open>backtrace\<close> is called for the \<open>n\<close>-th time.
\<close>

record platform =
  dladdr :: "addr \<Rightarrow> Dl_info option"
  cxa_demangle :: "string \<Rightarrow> string option \<times> int"
  symbols_available :: bool
  symbol_text :: "addr \<Rightarrow> string option"
  show_ptr :: "addr \<Rightarrow> string"
  native_stack :: "nat \<Rightarrow> addr list"

definition ptr_to_string :: "string option \<Rightarrow> string" where
  "ptr_to_string ptr = (case ptr of Some s \<Rightarrow> s | None \<Rightarrow> [])"

definition intoSymbolicInfo :: "platform \<Rightarrow> addr \<Rightarrow> string option \<Rightarrow> SymbolicInfo" where
  "intoSymbolicInfo pf addr symbol_backtrace =
     (case dladdr pf addr of
        None \<Rightarrow> \<lparr>symbol = [], fileName = [], offset = 0\<rparr>
      | Some dl_info \<Rightarrow>
          (let sym =
                 (case dli_sname dl_info of
                    None \<Rightarrow> ptr_to_string symbol_backtrace
                  | Some sname \<Rightarrow>
                      (let (symbol_demangled, status) = cxa_demangle pf sname
                       in if status \<noteq> 0 then ptr_to_string symbol_demangled
                          else ptr_to_string symbol_backtrace));
               fname = ptr_to_string (dli_fname dl_info);
               off = (case dli_fbase dl_info of Some fbase \<Rightarrow> addr - fbase | None \<Rightarrow> 0)
           in \<lparr>symbol = sym, fileName = fname, offset = off\<rparr>))"

text \<open>
  The other variant of the program in the repository resolves the symbol of a frame inside
  the loop of its \<open>CaptureStackTrace\<close>; this is the text it stores in \<open>frame.symbol\<close>
  (\<open>symbols_i\<close> is \<open>symbols[i]\<close>, the text of \<open>backtrace_symbols\<close>).
\<close>

definition CaptureStackTrace_symbol :: "platform \<Rightarrow> addr \<Rightarrow> string \<Rightarrow> string" where
  "CaptureStackTrace_symbol pf addr symbols_i =
     (case dladdr pf addr of
        Some info \<Rightarrow>
          (case dli_sname info of
             Some sname \<Rightarrow>
               (case fst (cxa_demangle pf sname) of
                  Some demangled \<Rightarrow> demangled
                | None \<Rightarrow> sname)
           | None \<Rightarrow> symbols_i)
      | None \<Rightarrow> symbols_i)"

text \<open>
  \<open>backtrace(callstack, size)\<close> stores at most \<open>size\<close> return addresses, innermost first;
  \<open>backtrace_symbols(callstack, nframes)\<close> returns null or one string per address.
\<close>

definition backtrace :: "addr list \<Rightarrow> nat \<Rightarrow> addr list" where
  "backtrace stack n = take n stack"

definition backtrace_symbols :: "platform \<Rightarrow> addr list \<Rightarrow> string option list option" where
  "backtrace_symbols pf callstack =
     (if symbols_available pf then Some (map (symbol_text pf) callstack) else None)"

text \<open>The \<open>for (int i = 2; i < nframes; ++i)\<close> loop of \<open>current\<close>.\<close>

function current_loop ::
  "platform \<Rightarrow> addr list \<Rightarrow> string option list \<Rightarrow> nat \<Rightarrow> StackTrace \<Rightarrow> StackTrace" where
  "current_loop pf callstack callstack_symbols i stackTrace =
     (if i < length callstack then
        (let addr = callstack ! i;
             info = intoSymbolicInfo pf addr (callstack_symbols ! i);
             frame = \<lparr>address = addr, symbolicInfo = info\<rparr>
         in current_loop pf callstack callstack_symbols (i + 1) (stackTrace @ [frame]))
      else stackTrace)"
  by pat_completeness auto
termination
  by (relation "measure (\<lambda>(pf, callstack, syms, i, tr). length callstack - i)") auto

declare current_loop.simps [simp del]

definition current :: "nat \<Rightarrow> platform \<Rightarrow> addr list \<Rightarrow> StackTrace" where
  "current DEPTH_MAX pf stack =
     (let callstack = backtrace stack DEPTH_MAX;
          nframes = length callstack
      in if nframes \<le> 0 then []
         else (case backtrace_symbols pf callstack of
                 None \<Rightarrow> []
               | Some callstack_symbols \<Rightarrow> current_loop pf callstack callstack_symbols 2 []))"

text \<open>The default of the template parameter, \<open>template <int DEPTH_MAX = 128>\<close>.\<close>

definition DEPTH_MAX_default :: nat where
  "DEPTH_MAX_default = 128"

text \<open>The trace that the \<open>n\<close>-th call of \<open>my_backtrace::current()\<close> in a run captures.\<close>

definition trace_at :: "platform \<Rightarrow> nat \<Rightarrow> StackTrace" where
  "trace_at pf n = current DEPTH_MAX_default pf (native_stack pf n)"

text \<open>Decimal text of an unsigned number, as \<open>operator<<\<close> prints \<open>size_t\<close> and \<open>uintptr_t\<close>.\<close>

definition digit_char :: "nat \<Rightarrow> char" where
  "digit_char d = ''0123456789'' ! d"

fun show_nat :: "nat \<Rightarrow> string" where
  "show_nat n = (if n < 10 then [digit_char n] else show_nat (n div 10) @ [digit_char (n mod 10)])"

declare show_nat.simps [simp del]

text \<open>The loop of \<open>toString\<close>; \<open>ss\<close> is the text written to the string stream so far.\<close>

function toString_loop :: "platform \<Rightarrow> StackTrace \<Rightarrow> nat \<Rightarrow> string \<Rightarrow> string" where
  "toString_loop pf stackTrace i ss =
     (if i < length stackTrace then
        (let frame = stackTrace ! i;
             ss1 = ss @ ''#'' @ show_nat i @ '': '' @ show_ptr pf (address frame) @ '' '';
             ss2 = (if symbol (symbolicInfo frame) \<noteq> [] then ss1 @ symbol (symbolicInfo frame)
                    else ss1 @ ''???'');
             ss3 = (if 0 < offset (symbolicInfo frame)
                    then ss2 @ '' +'' @ show_nat (unat (offset (symbolicInfo frame))) else ss2);
             ss4 = (if fileName (symbolicInfo frame) \<noteq> []
                    then ss3 @ '' in '' @ fileName (symbolicInfo frame) else ss3)
         in toString_loop pf stackTrace (i + 1) (ss4 @ [CHR 0x0A]))
      else ss)"
  by pat_completeness auto
termination
  by (relation "measure (\<lambda>(pf, stackTrace, i, ss). length stackTrace - i)") auto

declare toString_loop.simps [simp del]

definition toString :: "platform \<Rightarrow> StackTrace \<Rightarrow> string" where
  "toString pf stackTrace = toString_loop pf stackTrace 0 []"


text \<open>
  The rendering of one frame as the specification words it: index, address, the symbol or
  a placeholder, the offset only when it is greater than zero, the module only when it is
  known, one line.
\<close>

definition symbol_field :: "StackFrame \<Rightarrow> string" where
  "symbol_field frame =
     (if symbol (symbolicInfo frame) = [] then ''???'' else symbol (symbolicInfo frame))"

definition offset_field :: "StackFrame \<Rightarrow> string" where
  "offset_field frame =
     (if 0 < offset (symbolicInfo frame)
      then '' +'' @ show_nat (unat (offset (symbolicInfo frame))) else [])"

definition module_field :: "StackFrame \<Rightarrow> string" where
  "module_field frame =
     (if fileName (symbolicInfo frame) = [] then []
      else '' in '' @ fileName (symbolicInfo frame))"

definition frame_line :: "platform \<Rightarrow> nat \<Rightarrow> StackFrame \<Rightarrow> string" where
  "frame_line pf i frame =
     ''#'' @ show_nat i @ '': '' @ show_ptr pf (address frame) @ '' '' @
     symbol_field frame @ offset_field frame @ module_field frame @ [CHR 0x0A]"

text \<open>
  A platform to run the program on: the executable \<open>./a.out\<close> is loaded at \<open>0x400000\<close>; the
  address \<open>0x401136\<close> lies in the C++ function \<open>foo()\<close>, whose mangled name the demangler
  accepts, the address \<open>0x401200\<close> in the C function \<open>main\<close>, whose name it rejects with
  status \<open>-2\<close>, and \<open>dladdr\<close> knows no other address. The two innermost frames of every
  native stack are those of \<open>backtrace\<close> and \<open>current\<close>.
\<close>

definition hex_digit :: "nat \<Rightarrow> char" where
  "hex_digit d = ''0123456789abcdef'' ! d"

fun show_hex :: "nat \<Rightarrow> string" where
  "show_hex n = (if n < 16 then [hex_digit n] else show_hex (n div 16) @ [hex_digit (n mod 16)])"

declare show_hex.simps [simp del]

definition example_dladdr :: "addr \<Rightarrow> Dl_info option" where
  "example_dladdr a =
     (if a = 0x401136 then
        Some \<lparr>dli_fname = Some ''./a.out'', dli_fbase = Some 0x400000, dli_sname = Some ''_Z3foov''\<rparr>
      else if a = 0x401200 then
        Some \<lparr>dli_fname = Some ''./a.out'', dli_fbase = Some 0x400000, dli_sname = Some ''main''\<rparr>
      else None)"

definition example_demangle :: "string \<Rightarrow> string option \<times> int" where
  "example_demangle name = (if name = ''_Z3foov'' then (Some ''foo()'', 0) else (None, - 2))"

definition example_platform :: platform where
  "example_platform =
     \<lparr>dladdr = example_dladdr,
      cxa_demangle = example_demangle,
      symbols_available = True,
      symbol_text = (\<lambda>a. Some (''./a.out() [0x'' @ show_hex (unat a) @ '']'')),
      show_ptr = (\<lambda>a. ''0x'' @ show_hex (unat a)),
      native_stack = (\<lambda>n. [0x401900, 0x401800, 0x401136, 0x401200, 0x500000 + of_nat n])\<rparr>"

section \<open>The crash reporter\<close>

text \<open>
  A thrown object is either derived from \<open>std::exception\<close>, and then the reporter reads
  \<open>typeid(e).name()\<close> and \<open>e.what()\<close> from it, or it is anything else. An
  \<open>std::exception_ptr\<close> is null or refers to a thrown object.
\<close>

datatype exn = StdException string string | OtherException

type_synonym exception_ptr = "exn option"

text \<open>
  A \<open>std::runtime_error\<close> with the message \<open>what\<close>; its \<open>typeid\<close> name is the one of the
  Itanium C++ ABI.
\<close>

definition runtime_error :: "string \<Rightarrow> exn" where
  "runtime_error what = StdException ''St13runtime_error'' what"

text \<open>
  \<open>reportExceptionToFirebase\<close>, with the sink \<open>firebase::crashlytics::RecordException\<close> it
  calls as a parameter: a sink takes the three texts and the program state, and either
  returns (\<open>None\<close>) or throws. The result of the reporter is the exception that leaves it,
  if any: the null pointer throws nothing inside the \<open>try\<close>, a rethrown exception is caught
  by one of the two handlers, and what the sink throws inside a handler is caught by nobody.
\<close>

type_synonym 's sink = "string \<Rightarrow> string \<Rightarrow> string \<Rightarrow> 's \<Rightarrow> exn option \<times> 's"

definition reportExceptionToFirebase ::
  "'s sink \<Rightarrow> platform \<Rightarrow> exception_ptr \<Rightarrow> StackTrace \<Rightarrow> 's \<Rightarrow> exn option \<times> 's" where
  "reportExceptionToFirebase RecordException pf exceptionPtr stackTrace s =
     (case exceptionPtr of
        None \<Rightarrow> (None, s)
      | Some (StdException name what) \<Rightarrow>
          RecordException name what (toString pf stackTrace) s
      | Some OtherException \<Rightarrow>
          RecordException ''Unknown Exception'' ''Unhandled exception of unknown type''
            (toString pf stackTrace) s)"

section \<open>\<open>TracedTask\<close>\<close>

text \<open>
  \<open>promise_type::result\<close> is a \<open>std::variant<std::exception_ptr, Success>\<close>; a default
  constructed one holds a null \<open>exception_ptr\<close>.
\<close>

datatype 'v variant = Exception_ptr exception_ptr | Success 'v

text \<open>
  The body of a coroutine that returns a \<open>TracedTask\<close>, as the sequence of things it does
  that the task machinery sees:
  \<^item> \<open>CoReturn v\<close>: \<open>co_return v\<close>;
  \<^item> \<open>Throw e\<close>: an exception leaves the body;
  \<^item> \<open>Suspend rest\<close>: \<open>co_await std::suspend_always{}\<close>, then \<open>rest\<close> when resumed;
  \<^item> \<open>Await callee k c\<close>: \<open>x = co_await callee()\<close> for a coroutine \<open>callee\<close> returning a
    \<open>TracedTask\<close>; the body goes on as \<open>k x\<close> with the value, and as \<open>c e\<close> when the
    \<open>co_await\<close> throws \<open>e\<close>. Outside any \<open>try\<close> block \<open>c\<close> is \<open>Throw\<close>; in a \<open>try\<close> block,
    \<open>c e\<close> is the handler that matches \<open>e\<close> followed by the code after the block, and
    \<open>Throw e\<close> when no handler matches.
  Printing to \<open>std::cout\<close> by a body is left out.
\<close>

datatype 'v body =
    CoReturn 'v
  | Throw exn
  | Suspend "'v body"
  | Await "'v body" "'v \<Rightarrow> 'v body" "exn \<Rightarrow> 'v body"

text \<open>
  A coroutine frame: the two members of \<open>promise_type\<close>, whether the coroutine is suspended
  at its final suspend point (\<open>handle.done()\<close>), and where it continues when resumed.
\<close>

record 'v frame =
  promise_result :: "'v variant"
  promise_stackTrace :: StackTrace
  at_final_suspend :: bool
  resume_point :: "'v body"

text \<open>
  The program state: the live coroutine frames by handle, the next handle to give out, how
  often \<open>backtrace\<close> has been called, the calls of \<open>reportExceptionToFirebase\<close> (by the
  final awaiter of which frame, with which arguments), the calls the sink has received, and
  whether the program has been terminated (\<open>std::terminate\<close> after an exception left a
  \<open>noexcept\<close> function, or undefined behaviour).
\<close>

record 'v state =
  frames :: "nat \<Rightarrow> 'v frame option"
  next_handle :: nat
  captures :: nat
  reporter_calls :: "(nat \<times> exception_ptr \<times> StackTrace) list"
  crashlytics :: "(string \<times> string \<times> string) list"
  aborted :: bool

text \<open>
  The sink of the source prints a block with the three texts to \<open>std::cout\<close> and returns;
  the model records the three texts.
\<close>

definition RecordException :: "'v state sink" where
  "RecordException name reason stack_trace st =
     (None, st\<lparr>crashlytics := crashlytics st @ [(name, reason, stack_trace)]\<rparr>)"

definition update_frame :: "nat \<Rightarrow> ('v frame \<Rightarrow> 'v frame) \<Rightarrow> 'v state \<Rightarrow> 'v state" where
  "update_frame h f st = st\<lparr>frames := (frames st)(h := map_option f (frames st h))\<rparr>"

text \<open>
  Calling a coroutine allocates its frame with a default constructed promise;
  \<open>initial_suspend\<close> captures the stack trace and does not suspend.
\<close>

definition new_frame :: "'v body \<Rightarrow> 'v state \<Rightarrow> nat \<times> 'v state" where
  "new_frame b st =
     (next_handle st,
      st\<lparr>frames := (frames st)(next_handle st \<mapsto>
            \<lparr>promise_result = Exception_ptr None, promise_stackTrace = [],
             at_final_suspend = False, resume_point = b\<rparr>),
         next_handle := next_handle st + 1\<rparr>)"

definition initial_suspend :: "platform \<Rightarrow> nat \<Rightarrow> 'v state \<Rightarrow> 'v state" where
  "initial_suspend pf h st =
     update_frame h
       (\<lambda>p. p\<lparr>promise_stackTrace := trace_at pf (captures st)\<rparr>)
       (st\<lparr>captures := captures st + 1\<rparr>)"

definition return_value :: "nat \<Rightarrow> 'v \<Rightarrow> 'v state \<Rightarrow> 'v state" where
  "return_value h v st = update_frame h (\<lambda>p. p\<lparr>promise_result := Success v\<rparr>) st"

definition unhandled_exception :: "nat \<Rightarrow> exn \<Rightarrow> 'v state \<Rightarrow> 'v state" where
  "unhandled_exception h e st =
     update_frame h (\<lambda>p. p\<lparr>promise_result := Exception_ptr (Some e)\<rparr>) st"

text \<open>
  \<open>final_awaiter::await_suspend\<close>, which runs when the coroutine reaches its final suspend
  point: it reports when the variant holds an \<open>exception_ptr\<close>. The function is
  \<open>noexcept\<close>, so an exception leaving the reporter terminates the program. After it the
  coroutine is suspended at the final suspend point.
\<close>

definition final_suspend :: "platform \<Rightarrow> nat \<Rightarrow> 'v state \<Rightarrow> 'v state" where
  "final_suspend pf h st =
     (case frames st h of
        None \<Rightarrow> st
      | Some p \<Rightarrow>
          (let st1 =
             (case promise_result p of
                Exception_ptr e \<Rightarrow>
                  (case reportExceptionToFirebase RecordException pf e (promise_stackTrace p)
                          (st\<lparr>reporter_calls :=
                                reporter_calls st @ [(h, e, promise_stackTrace p)]\<rparr>) of
                     (None, st') \<Rightarrow> st'
                   | (Some x, st') \<Rightarrow> st'\<lparr>aborted := True\<rparr>)
              | Success v \<Rightarrow> st)
           in update_frame h (\<lambda>p. p\<lparr>at_final_suspend := True\<rparr>) st1))"

text \<open>The task object: it owns a coroutine handle, or holds the null handle.\<close>

record TracedTask =
  handle :: "nat option"

definition handle_done :: "'v state \<Rightarrow> nat \<Rightarrow> bool" where
  "handle_done st h = (case frames st h of Some p \<Rightarrow> at_final_suspend p | None \<Rightarrow> False)"

definition is_ready :: "TracedTask \<Rightarrow> 'v state \<Rightarrow> bool" where
  "is_ready task st = (case handle task of None \<Rightarrow> False | Some h \<Rightarrow> handle_done st h)"

text \<open>
  What a call that may throw gives back. \<open>std::rethrow_exception\<close> of a null pointer has
  no defined behaviour. \<open>result\<close> is a \<open>const\<close> member that reads the promise; like every
  operation of the task it is a function from the state before the call to what the call
  gives back and the state after it.
\<close>

datatype 'v outcome = Returns 'v | Raises exn | Undefined_behaviour

definition result :: "TracedTask \<Rightarrow> 'v state \<Rightarrow> 'v outcome \<times> 'v state" where
  "result task st =
     (if \<not> is_ready task st then (Raises (runtime_error ''TracedTask not completed''), st)
      else (case handle task of
              None \<Rightarrow> (Undefined_behaviour, st)
            | Some h \<Rightarrow>
                (case frames st h of
                   None \<Rightarrow> (Undefined_behaviour, st)
                 | Some p \<Rightarrow>
                     (case promise_result p of
                        Success v \<Rightarrow> (Returns v, st)
                      | Exception_ptr (Some e) \<Rightarrow> (Raises e, st)
                      | Exception_ptr None \<Rightarrow> (Undefined_behaviour, st)))))"

definition await_ready :: "TracedTask \<Rightarrow> 'v state \<Rightarrow> bool" where
  "await_ready task st = is_ready task st"

definition await_resume :: "TracedTask \<Rightarrow> 'v state \<Rightarrow> 'v outcome \<times> 'v state" where
  "await_resume task st = result task st"

text \<open>The destructor: \<open>if (handle) handle.destroy()\<close>.\<close>

definition destroy :: "TracedTask \<Rightarrow> 'v state \<Rightarrow> 'v state" where
  "destroy task st =
     (case handle task of None \<Rightarrow> st | Some h \<Rightarrow> st\<lparr>frames := (frames st)(h := None)\<rparr>)"

text \<open>
  The move constructor gives the new object and what is left of \<open>other\<close>. The move
  assignment works on two task objects that exist already: \<open>objects\<close> gives the task object
  at each location, and \<open>this\<close> and \<open>other\<close> are the locations of \<open>*this\<close> and of the
  argument. When they are the same object nothing happens; otherwise the frame that
  \<open>*this\<close> owns is destroyed, \<open>*this\<close> takes the handle of \<open>other\<close>, and \<open>other\<close> is left
  with the null handle.
\<close>

definition move_construct :: "TracedTask \<Rightarrow> TracedTask \<times> TracedTask" where
  "move_construct other = (\<lparr>handle = handle other\<rparr>, other\<lparr>handle := None\<rparr>)"

definition move_assign ::
  "nat \<Rightarrow> nat \<Rightarrow> (nat \<Rightarrow> TracedTask) \<Rightarrow> 'v state \<Rightarrow> (nat \<Rightarrow> TracedTask) \<times> 'v state" where
  "move_assign this other objects st =
     (if this \<noteq> other then
        (objects(this := (objects this)\<lparr>handle := handle (objects other)\<rparr>,
                 other := (objects other)\<lparr>handle := None\<rparr>),
         destroy (objects this) st)
      else (objects, st))"

text \<open>
  Running a body in the frame \<open>h\<close> until the coroutine suspends. The result is the new state
  and, when the coroutine is suspended before its end, what \<open>handle.resume()\<close> will do (the
  continuation the frame holds, as a function of the state it is resumed in); \<open>None\<close> when
  the coroutine is at its final suspend point.

  \<open>co_await callee()\<close> calls the coroutine, which runs up to its first suspension inside
  the call. \<open>await_ready\<close> is \<open>is_ready\<close>; when it is false, \<open>await_suspend\<close> resumes the
  callee once and then returns the handle of the awaiting coroutine, which so continues at
  once, whether the callee is finished or not. \<open>await_resume\<close> is \<open>result\<close>. The temporary
  task is destroyed at the end of the full expression, also when \<open>await_resume\<close> throws.
\<close>

datatype 'v resumption = Resumption "'v state \<Rightarrow> 'v state \<times> 'v resumption option"

definition await_suspend :: "'v resumption option \<Rightarrow> 'v state \<Rightarrow> 'v state" where
  "await_suspend r st =
     (case r of Some (Resumption f) \<Rightarrow> fst (f st) | None \<Rightarrow> st\<lparr>aborted := True\<rparr>)"

primrec exec :: "platform \<Rightarrow> 'v body \<Rightarrow> nat \<Rightarrow> 'v state \<Rightarrow> 'v state \<times> 'v resumption option" where
  "exec pf (CoReturn v) h st = (final_suspend pf h (return_value h v st), None)"
| "exec pf (Throw e) h st = (final_suspend pf h (unhandled_exception h e st), None)"
| "exec pf (Suspend rest) h st =
     (update_frame h (\<lambda>p. p\<lparr>resume_point := rest\<rparr>) st, Some (Resumption (exec pf rest h)))"
| "exec pf (Await callee k c) h st =
     (let (t, st1) = new_frame callee st;
          (st2, r) = exec pf callee t (initial_suspend pf t st1);
          task = \<lparr>handle = Some t\<rparr>;
          st3 = (if await_ready task st2 then st2 else await_suspend r st2);
          (x, st3') = await_resume task st3;
          st4 = destroy task st3'
      in case x of
           Returns v \<Rightarrow> exec pf (k v) h st4
         | Raises e \<Rightarrow> exec pf (c e) h st4
         | Undefined_behaviour \<Rightarrow> (st4\<lparr>aborted := True\<rparr>, None))"

text \<open>
  A coroutine call from ordinary code: the state in which the body starts to run (the frame
  allocated, the trace captured), and the task and the state when the call returns. Then
  \<open>handle.resume()\<close>, which has defined behaviour only on a coroutine that is suspended
  before its end.
\<close>

definition body_state :: "platform \<Rightarrow> 'v body \<Rightarrow> 'v state \<Rightarrow> 'v state" where
  "body_state pf b st = (let (h, st1) = new_frame b st in initial_suspend pf h st1)"

definition coroutine_call :: "platform \<Rightarrow> 'v body \<Rightarrow> 'v state \<Rightarrow> TracedTask \<times> 'v state" where
  "coroutine_call pf b st =
     (\<lparr>handle = Some (next_handle st)\<rparr>, fst (exec pf b (next_handle st) (body_state pf b st)))"

definition resume :: "platform \<Rightarrow> nat \<Rightarrow> 'v state \<Rightarrow> 'v state" where
  "resume pf h st =
     (case frames st h of
        None \<Rightarrow> st\<lparr>aborted := True\<rparr>
      | Some p \<Rightarrow>
          if at_final_suspend p then st\<lparr>aborted := True\<rparr>
          else fst (exec pf (resume_point p) h st))"

definition run :: "platform \<Rightarrow> TracedTask \<Rightarrow> 'v state \<Rightarrow> 'v state" where
  "run pf task st =
     (case handle task of
        None \<Rightarrow> st
      | Some h \<Rightarrow> if \<not> handle_done st h then resume pf h st else st)"


text \<open>
  \<open>runTask\<close>: \<open>task.run()\<close>, then \<open>task.result()\<close> inside a \<open>try\<close> block. The outcome
  says what \<open>runTask\<close> does with it: it prints the value of \<open>Returns v\<close>, it catches a
  \<open>std::exception\<close> and prints its message, and any other exception leaves \<open>runTask\<close>.
\<close>

definition runTask :: "platform \<Rightarrow> TracedTask \<Rightarrow> 'v state \<Rightarrow> 'v outcome \<times> 'v state" where
  "runTask pf task st = result task (run pf task st)"

text \<open>The coroutines of the example program; \<open>T\<close> is \<open>int\<close>.\<close>

definition thirdLevelTask :: "int body" where
  "thirdLevelTask = Throw (runtime_error ''Exception from third level task'')"

definition secondLevelTask :: "int body" where
  "secondLevelTask = Await thirdLevelTask (\<lambda>r. CoReturn (r * 2)) Throw"

definition topLevelTask :: "int body" where
  "topLevelTask = Await secondLevelTask (\<lambda>r. CoReturn 1) Throw"

definition handledExceptionTask :: "int body" where
  "handledExceptionTask =
     Await secondLevelTask (\<lambda>r. CoReturn 1)
       (\<lambda>e. case e of StdException name what \<Rightarrow> CoReturn 1 | OtherException \<Rightarrow> Throw e)"

text \<open>The state in which the program starts.\<close>

definition initial_state :: "'v state" where
  "initial_state =
     \<lparr>frames = (\<lambda>h. None), next_handle = 0, captures = 0, reporter_calls = [],
      crashlytics = [], aborted = False\<rparr>"


text \<open>
  The calls of the reporter for the frame \<open>h\<close> that were made after the state \<open>st\<close>, up to
  the state \<open>st'\<close>.
\<close>

definition calls_since ::
  "'v state \<Rightarrow> 'v state \<Rightarrow> nat \<Rightarrow> (nat \<times> exception_ptr \<times> StackTrace) list" where
  "calls_since st st' h =
     filter (\<lambda>c. fst c = h) (drop (length (reporter_calls st)) (reporter_calls st'))"

text \<open>
  \<open>reach b rest\<close>: a coroutine that runs the body \<open>b\<close> can be suspended with \<open>rest\<close> left to
  run. A coroutine is never left suspended inside a \<open>co_await\<close> of a \<open>TracedTask\<close>.
\<close>

inductive reach :: "'v body \<Rightarrow> 'v body \<Rightarrow> bool" where
  reach_here: "reach (Suspend rest) rest"
| reach_later: "reach rest b \<Longrightarrow> reach (Suspend rest) b"
| reach_value: "reach (k v) b \<Longrightarrow> reach (Await callee k c) b"
| reach_catch: "reach (c e) b \<Longrightarrow> reach (Await callee k c) b"


inductive_cases reach_CoReturnE: "reach (CoReturn v) rest"
inductive_cases reach_ThrowE: "reach (Throw e) rest"
inductive_cases reach_SuspendE: "reach (Suspend b) rest"
inductive_cases reach_AwaitE: "reach (Await callee k c) rest"

text \<open>
  The part of \<open>exec\<close> for \<open>co_await callee()\<close> up to the point where the awaiting body goes
  on, in two steps: the state in which \<open>await_resume\<close> is called on the temporary task (the
  callee called and, when it was not ready, resumed once by \<open>await_suspend\<close>); then what the
  body receives from \<open>await_resume\<close>, and the state once the temporary task is destroyed.
\<close>

definition await_state :: "platform \<Rightarrow> 'v body \<Rightarrow> 'v state \<Rightarrow> 'v state" where
  "await_state pf callee st =
     (let t = next_handle st;
          (st2, r) = exec pf callee t (body_state pf callee st);
          task = \<lparr>handle = Some t\<rparr>
      in if await_ready task st2 then st2 else await_suspend r st2)"

definition await_callee :: "platform \<Rightarrow> 'v body \<Rightarrow> 'v state \<Rightarrow> 'v outcome \<times> 'v state" where
  "await_callee pf callee st =
     (let task = \<lparr>handle = Some (next_handle st)\<rparr>;
          (x, st3') = await_resume task (await_state pf callee st)
      in (x, destroy task st3'))"

text \<open>A body that suspends \<open>n\<close> times before it does what \<open>b\<close> does.\<close>

primrec after_suspensions :: "nat \<Rightarrow> 'v body \<Rightarrow> 'v body" where
  "after_suspensions 0 b = b"
| "after_suspensions (Suc n) b = Suspend (after_suspensions n b)"

text \<open>What the sink receives when the reporter is called with the exception \<open>e\<close>.\<close>

definition sink_record :: "platform \<Rightarrow> exn \<Rightarrow> StackTrace \<Rightarrow> string \<times> string \<times> string" where
  "sink_record pf e stackTrace =
     (case e of
        StdException name what \<Rightarrow> (name, what, toString pf stackTrace)
      | OtherException \<Rightarrow>
          (''Unknown Exception'', ''Unhandled exception of unknown type'',
           toString pf stackTrace))"

section \<open>Predicates of the proofs\<close>

text \<open>
  \<open>step_of h st st' new\<close>: from \<open>st\<close> to \<open>st'\<close> the reporter was called with \<open>new\<close>, for the
  frame \<open>h\<close> or for frames created after \<open>st\<close>; no other frame that existed in \<open>st\<close> has
  changed, and the program was not terminated.
\<close>

definition step_of ::
  "nat \<Rightarrow> 'v state \<Rightarrow> 'v state \<Rightarrow> (nat \<times> exception_ptr \<times> StackTrace) list \<Rightarrow> bool" where
  "step_of h st st' new \<longleftrightarrow>
     reporter_calls st' = reporter_calls st @ new
     \<and> (\<forall>c\<in>set new. fst c = h \<or> next_handle st \<le> fst c)
     \<and> next_handle st \<le> next_handle st'
     \<and> (\<forall>x<next_handle st. x \<noteq> h \<longrightarrow> frames st' x = frames st x)
     \<and> aborted st' = aborted st"

text \<open>The reporter calls that the promise \<open>p\<close> of the frame \<open>h\<close> accounts for.\<close>

definition own_calls :: "nat \<Rightarrow> 'v frame \<Rightarrow> (nat \<times> exception_ptr \<times> StackTrace) list" where
  "own_calls h p =
     (if at_final_suspend p
      then (case promise_result p of
              Exception_ptr e \<Rightarrow> [(h, e, promise_stackTrace p)]
            | Success v \<Rightarrow> [])
      else [])"

text \<open>What \<open>result\<close> gives back, read from the frame of the task.\<close>

definition received :: "'v frame \<Rightarrow> 'v outcome" where
  "received p =
     (if \<not> at_final_suspend p then Raises (runtime_error ''TracedTask not completed'')
      else (case promise_result p of
              Success v \<Rightarrow> Returns v
            | Exception_ptr (Some e) \<Rightarrow> Raises e
            | Exception_ptr None \<Rightarrow> Undefined_behaviour))"

text \<open>
  \<open>own_frame pf b h p st' r new\<close>: after the body \<open>b\<close> has run in the frame \<open>h\<close>, which was
  \<open>p\<close> before, the frame still has the trace of \<open>p\<close>; it is at its final suspend point
  exactly when there is no resumption, and then its variant holds a value or a non-null
  exception; the calls for \<open>h\<close> among \<open>new\<close> are those its promise accounts for; and a
  resumption is the continuation that the frame stores.
\<close>

definition own_frame ::
  "platform \<Rightarrow> 'v body \<Rightarrow> nat \<Rightarrow> 'v frame \<Rightarrow> 'v state \<Rightarrow> 'v resumption option \<Rightarrow>
   (nat \<times> exception_ptr \<times> StackTrace) list \<Rightarrow> bool" where
  "own_frame pf b h p st' r new \<longleftrightarrow>
     (case frames st' h of
        None \<Rightarrow> False
      | Some p' \<Rightarrow>
          promise_stackTrace p' = promise_stackTrace p
          \<and> (at_final_suspend p' \<longleftrightarrow> r = None)
          \<and> (at_final_suspend p' \<longrightarrow> promise_result p' \<noteq> Exception_ptr None)
          \<and> filter (\<lambda>c. fst c = h) new = own_calls h p'
          \<and> (r \<noteq> None \<longrightarrow> reach b (resume_point p')
                 \<and> r = Some (Resumption (exec pf (resume_point p') h))))"

definition runs_well :: "platform \<Rightarrow> 'v body \<Rightarrow> bool" where
  "runs_well pf b \<longleftrightarrow>
     (\<forall>h st p. frames st h = Some p \<longrightarrow> \<not> at_final_suspend p \<longrightarrow> h < next_handle st \<longrightarrow>
        (\<exists>new. step_of h st (fst (exec pf b h st)) new
              \<and> own_frame pf b h p (fst (exec pf b h st)) (snd (exec pf b h st)) new))"

text \<open>
  \<open>sink_follows pf st st'\<close>: from \<open>st\<close> to \<open>st'\<close> the sink has received one record for each
  call of the reporter with a non-null exception, in the order of the calls, and nothing
  else.
\<close>

definition sink_records ::
  "platform \<Rightarrow> nat \<times> exception_ptr \<times> StackTrace \<Rightarrow> (string \<times> string \<times> string) list" where
  "sink_records pf call =
     (case fst (snd call) of
        None \<Rightarrow> []
      | Some e \<Rightarrow> [sink_record pf e (snd (snd call))])"

definition sink_follows :: "platform \<Rightarrow> 'v state \<Rightarrow> 'v state \<Rightarrow> bool" where
  "sink_follows pf st st' \<longleftrightarrow>
     (\<exists>new. reporter_calls st' = reporter_calls st @ new
            \<and> crashlytics st' = crashlytics st @ concat (map (sink_records pf) new))"

definition sink_ok :: "platform \<Rightarrow> 'v body \<Rightarrow> bool" where
  "sink_ok pf b \<longleftrightarrow> (\<forall>h st. sink_follows pf st (fst (exec pf b h st)))"

text \<open>
  \<open>tracked pf st s\<close>: \<open>s\<close> is a state in the life of the task that a coroutine call in
  the state \<open>st\<close> created.
\<close>

definition tracked :: "platform \<Rightarrow> 'v state \<Rightarrow> 'v state \<Rightarrow> bool" where
  "tracked pf st s \<longleftrightarrow>
     next_handle st < next_handle s
     \<and> take (length (reporter_calls st)) (reporter_calls s) = reporter_calls st
     \<and> (case frames s (next_handle st) of
          None \<Rightarrow> False
        | Some p \<Rightarrow>
            promise_stackTrace p = trace_at pf (captures st)
            \<and> (at_final_suspend p \<longrightarrow> promise_result p \<noteq> Exception_ptr None)
            \<and> calls_since st s (next_handle st) = own_calls (next_handle st) p)"


section \<open>Lemmas about the stack traces\<close>

lemma current_loop_eq:
  "length syms = length callstack \<Longrightarrow>
   current_loop pf callstack syms i acc =
     acc @ map (\<lambda>j. \<lparr>address = callstack ! j,
                      symbolicInfo = intoSymbolicInfo pf (callstack ! j) (syms ! j)\<rparr>)
             [i..<length callstack]"
proof (induction pf callstack syms i acc rule: current_loop.induct)
  case (1 pf callstack syms i acc)
  show ?case
  proof (cases "i < length callstack")
    case True
    then have "[i..<length callstack] = i # [i + 1..<length callstack]"
      by (simp add: upt_conv_Cons)
    with True "1" show ?thesis
      by (subst current_loop.simps) (simp add: Let_def)
  next
    case False
    then show ?thesis
      by (subst current_loop.simps) simp
  qed
qed

lemma map_nth_drop:
  "map (\<lambda>j. f (xs ! j)) [i..<length xs] = map f (drop i xs)"
proof -
  have "map (\<lambda>j. f (xs ! j)) [i..<length xs] = map f (map (\<lambda>j. xs ! j) [i..<length xs])"
    by simp
  also have "map (\<lambda>j. xs ! j) [i..<length xs] = drop i xs"
    by (simp add: list_eq_iff_nth_eq)
  finally show ?thesis .
qed

lemma current_eq:
  "current DEPTH_MAX pf stack =
     (if symbols_available pf
      then map (\<lambda>a. \<lparr>address = a, symbolicInfo = intoSymbolicInfo pf a (symbol_text pf a)\<rparr>)
             (drop 2 (take DEPTH_MAX stack))
      else [])"
proof -
  let ?cs = "take DEPTH_MAX stack"
  have "current_loop pf ?cs (map (symbol_text pf) ?cs) 2 [] =
        map (\<lambda>j. \<lparr>address = ?cs ! j,
                   symbolicInfo = intoSymbolicInfo pf (?cs ! j) (map (symbol_text pf) ?cs ! j)\<rparr>)
          [2..<length ?cs]"
    by (simp add: current_loop_eq)
  also have "\<dots> = map (\<lambda>j. (\<lambda>a. \<lparr>address = a, symbolicInfo = intoSymbolicInfo pf a (symbol_text pf a)\<rparr>) (?cs ! j))
          [2..<length ?cs]"
    by simp
  also have "\<dots> = map (\<lambda>a. \<lparr>address = a, symbolicInfo = intoSymbolicInfo pf a (symbol_text pf a)\<rparr>) (drop 2 ?cs)"
    by (rule map_nth_drop)
  finally show ?thesis
    by (auto simp: current_def backtrace_def backtrace_symbols_def Let_def)
qed

lemma toString_loop_eq:
  "toString_loop pf tr i ss = ss @ concat (map (\<lambda>j. frame_line pf j (tr ! j)) [i..<length tr])"
proof (induction pf tr i ss rule: toString_loop.induct)
  case (1 pf tr i ss)
  show ?case
  proof (cases "i < length tr")
    case True
    then have "[i..<length tr] = i # [i + 1..<length tr]"
      by (simp add: upt_conv_Cons)
    with True "1" show ?thesis
      by (subst toString_loop.simps)
        (simp add: Let_def frame_line_def symbol_field_def offset_field_def module_field_def)
  next
    case False
    then show ?thesis
      by (subst toString_loop.simps) simp
  qed
qed

lemma show_nat_numeral:
  "show_nat (numeral k) =
     (if numeral k < (10::nat) then [digit_char (numeral k)]
      else show_nat (numeral k div 10) @ [digit_char (numeral k mod 10)])"
  by (rule show_nat.simps)

lemma show_nat_0: "show_nat 0 = ''0''"
  by (simp add: show_nat.simps digit_char_def)

lemma show_nat_1: "show_nat (Suc 0) = ''1''"
  by (subst show_nat.simps) (simp add: digit_char_def)

lemma show_hex_numeral:
  "show_hex (numeral k) =
     (if numeral k < (16::nat) then [hex_digit (numeral k)]
      else show_hex (numeral k div 16) @ [hex_digit (numeral k mod 16)])"
  by (rule show_hex.simps)

lemma CaptureStackTrace_symbol_demangled:
  "dladdr pf a = Some info \<Longrightarrow> dli_sname info = Some sname \<Longrightarrow>
   cxa_demangle pf sname = (Some demangled, status) \<Longrightarrow>
   CaptureStackTrace_symbol pf a symbols_i = demangled"
  by (simp add: CaptureStackTrace_symbol_def)

lemma intoSymbolicInfo_symbol:
  "dladdr pf a = Some info \<Longrightarrow> dli_sname info = Some sname \<Longrightarrow>
   cxa_demangle pf sname = (demangled, status) \<Longrightarrow>
   symbol (intoSymbolicInfo pf a raw) =
     (if status = 0 then ptr_to_string raw else ptr_to_string demangled)"
  by (simp add: intoSymbolicInfo_def)

section \<open>Lemmas about the tasks\<close>

lemmas promise_defs =
  update_frame_def return_value_def unhandled_exception_def final_suspend_def
  reportExceptionToFirebase_def RecordException_def

lemma runs_well_CoReturn: "runs_well pf (CoReturn v)"
  unfolding runs_well_def
proof (intro allI impI)
  fix h and st :: "'a state" and p
  assume p: "frames st h = Some p" and nf: "\<not> at_final_suspend p" and h: "h < next_handle st"
  show "\<exists>new. step_of h st (fst (exec pf (CoReturn v) h st)) new
              \<and> own_frame pf (CoReturn v) h p (fst (exec pf (CoReturn v) h st)) (snd (exec pf (CoReturn v) h st)) new"
    using p by (intro exI [of _ "[]"]) (simp add: step_of_def own_frame_def own_calls_def promise_defs)
qed

lemma runs_well_Throw: "runs_well pf (Throw e)"
  unfolding runs_well_def
proof (intro allI impI)
  fix h and st :: "'a state" and p
  assume p: "frames st h = Some p" and nf: "\<not> at_final_suspend p" and h: "h < next_handle st"
  show "\<exists>new. step_of h st (fst (exec pf (Throw e) h st)) new
              \<and> own_frame pf (Throw e) h p (fst (exec pf (Throw e) h st)) (snd (exec pf (Throw e) h st)) new"
    using p by (intro exI [of _ "[(h, Some e, promise_stackTrace p)]"])
      (simp add: step_of_def own_frame_def own_calls_def promise_defs split: exn.split)
qed

lemma runs_well_Suspend: "runs_well pf (Suspend rest)"
  unfolding runs_well_def
proof (intro allI impI)
  fix h and st :: "'a state" and p
  assume p: "frames st h = Some p" and nf: "\<not> at_final_suspend p" and h: "h < next_handle st"
  show "\<exists>new. step_of h st (fst (exec pf (Suspend rest) h st)) new
              \<and> own_frame pf (Suspend rest) h p (fst (exec pf (Suspend rest) h st)) (snd (exec pf (Suspend rest) h st)) new"
    using p nf by (intro exI [of _ "[]"])
      (simp add: step_of_def own_frame_def own_calls_def promise_defs reach.reach_here)
qed


lemma exec_Await:
  "exec pf (Await callee k c) h st =
     (case await_callee pf callee st of
        (Returns v, st4) \<Rightarrow> exec pf (k v) h st4
      | (Raises e, st4) \<Rightarrow> exec pf (c e) h st4
      | (Undefined_behaviour, st4) \<Rightarrow> (st4\<lparr>aborted := True\<rparr>, None))"
  by (simp add: await_callee_def await_state_def body_state_def new_frame_def Let_def
      split: prod.split)

lemma body_state_simps:
  "frames (body_state pf b st) =
     (frames st)(next_handle st \<mapsto>
        \<lparr>promise_result = Exception_ptr None, promise_stackTrace = trace_at pf (captures st),
         at_final_suspend = False, resume_point = b\<rparr>)"
  "next_handle (body_state pf b st) = Suc (next_handle st)"
  "captures (body_state pf b st) = Suc (captures st)"
  "reporter_calls (body_state pf b st) = reporter_calls st"
  "crashlytics (body_state pf b st) = crashlytics st"
  "aborted (body_state pf b st) = aborted st"
  by (simp_all add: body_state_def new_frame_def initial_suspend_def update_frame_def)

lemma step_of_body_state:
  "step_of (next_handle st) (body_state pf b st) st' new \<Longrightarrow> step_of (next_handle st) st st' new"
  by (auto simp: step_of_def body_state_simps)

lemma step_of_trans:
  "step_of h st st1 new1 \<Longrightarrow> step_of h st1 st2 new2 \<Longrightarrow> step_of h st st2 (new1 @ new2)"
proof -
  assume a: "step_of h st st1 new1" and b: "step_of h st1 st2 new2"
  from a b have le: "next_handle st \<le> next_handle st1"
    by (simp add: step_of_def)
  from a b have "reporter_calls st2 = reporter_calls st @ new1 @ new2"
    by (simp add: step_of_def)
  moreover from a b le have "\<forall>c\<in>set (new1 @ new2). fst c = h \<or> next_handle st \<le> fst c"
    by (fastforce simp: step_of_def)
  moreover from a b have "next_handle st \<le> next_handle st2"
    by (simp add: step_of_def)
  moreover from a b le have "\<forall>x<next_handle st. x \<noteq> h \<longrightarrow> frames st2 x = frames st x"
    by (simp add: step_of_def)
  moreover from a b have "aborted st2 = aborted st"
    by (simp add: step_of_def)
  ultimately show ?thesis
    unfolding step_of_def by blast
qed

lemma step_of_destroy:
  "step_of t st st' new \<Longrightarrow> step_of t st (destroy \<lparr>handle = Some t\<rparr> st') new"
  by (simp add: step_of_def destroy_def)

lemma step_of_outer:
  assumes "step_of (next_handle st) st st4 new1" and "h < next_handle st"
    and "step_of h st4 st' new2"
  shows "step_of h st st' (new1 @ new2)"
    and "filter (\<lambda>c. fst c = h) (new1 @ new2) = filter (\<lambda>c. fst c = h) new2"
    and "frames st4 h = frames st h"
proof -
  from assms(1,2) have none: "\<forall>c\<in>set new1. fst c \<noteq> h"
    by (auto simp: step_of_def)
  then show "filter (\<lambda>c. fst c = h) (new1 @ new2) = filter (\<lambda>c. fst c = h) new2"
    by (simp add: filter_empty_conv)
  from assms(1,2) show "frames st4 h = frames st h"
    by (simp add: step_of_def)
  from assms have "step_of h st st4 new1"
    unfolding step_of_def by auto
  from this assms(3) show "step_of h st st' (new1 @ new2)"
    by (rule step_of_trans)
qed


lemma result_simps:
  "frames st t = Some p \<Longrightarrow>
   result \<lparr>handle = Some t\<rparr> st =
     (if \<not> at_final_suspend p then Raises (runtime_error ''TracedTask not completed'')
      else (case promise_result p of
              Success v \<Rightarrow> Returns v
            | Exception_ptr (Some e) \<Rightarrow> Raises e
            | Exception_ptr None \<Rightarrow> Undefined_behaviour), st)"
  by (simp add: result_def is_ready_def handle_done_def split: variant.split option.split)

lemma await_callee_step:
  assumes callee: "runs_well pf callee"
    and rest: "\<And>rest. reach callee rest \<Longrightarrow> runs_well pf rest"
  shows "\<exists>new p. step_of (next_handle st) st (snd (await_callee pf callee st)) new
           \<and> fst (await_callee pf callee st) = received p
           \<and> received p \<noteq> Undefined_behaviour
           \<and> promise_stackTrace p = trace_at pf (captures st)
           \<and> filter (\<lambda>c. fst c = next_handle st) new = own_calls (next_handle st) p
           \<and> (\<forall>p2. frames (snd (coroutine_call pf callee st)) (next_handle st) = Some p2 \<longrightarrow>
                  at_final_suspend p2 \<longrightarrow> p = p2)"
proof -
  let ?t = "next_handle st"
  let ?st1 = "body_state pf callee st"
  let ?p0 = "\<lparr>promise_result = Exception_ptr None, promise_stackTrace = trace_at pf (captures st),
               at_final_suspend = False, resume_point = callee\<rparr>"
  obtain st2 r where ex: "exec pf callee ?t ?st1 = (st2, r)"
    by (cases "exec pf callee ?t ?st1")
  have "frames ?st1 ?t = Some ?p0" "\<not> at_final_suspend ?p0" "?t < next_handle ?st1"
    by (simp_all add: body_state_simps)
  with callee ex obtain new2 where s2: "step_of ?t ?st1 st2 new2"
    and o2: "own_frame pf callee ?t ?p0 st2 r new2"
    unfolding runs_well_def by (metis fst_conv snd_conv)
  from o2 obtain p2 where p2: "frames st2 ?t = Some p2"
    and tr2: "promise_stackTrace p2 = trace_at pf (captures st)"
    and fin2: "at_final_suspend p2 \<longleftrightarrow> r = None"
    and nn2: "at_final_suspend p2 \<longrightarrow> promise_result p2 \<noteq> Exception_ptr None"
    and own2: "filter (\<lambda>c. fst c = ?t) new2 = own_calls ?t p2"
    and r2: "r \<noteq> None \<longrightarrow> reach callee (resume_point p2)
               \<and> r = Some (Resumption (exec pf (resume_point p2) ?t))"
    by (auto simp: own_frame_def split: option.splits)
  from s2 have s2': "step_of ?t st st2 new2"
    by (rule step_of_body_state)
  show ?thesis
  proof (cases "at_final_suspend p2")
    case True
    with p2 have "await_callee pf callee st = (received p2, destroy \<lparr>handle = Some ?t\<rparr> st2)"
      by (simp add: await_callee_def await_state_def ex await_ready_def is_ready_def handle_done_def
          await_resume_def result_simps received_def Let_def)
    moreover from True nn2 have "received p2 \<noteq> Undefined_behaviour"
      by (auto simp: received_def split: variant.split option.split)
    ultimately show ?thesis
      using step_of_destroy [OF s2'] tr2 own2 p2
      by (intro exI [of _ new2] exI [of _ p2]) (simp add: coroutine_call_def ex)
  next
    case False
    with fin2 r2 have reach: "reach callee (resume_point p2)"
      and r: "r = Some (Resumption (exec pf (resume_point p2) ?t))"
      by auto
    obtain st3 r3 where ex3: "exec pf (resume_point p2) ?t st2 = (st3, r3)"
      by (cases "exec pf (resume_point p2) ?t st2")
    from s2 have "?t < next_handle st2"
      by (simp add: step_of_def body_state_simps)
    with rest [OF reach] p2 False ex3 obtain new3 where s3: "step_of ?t st2 st3 new3"
      and o3: "own_frame pf (resume_point p2) ?t p2 st3 r3 new3"
      unfolding runs_well_def by (metis fst_conv snd_conv)
    from o3 obtain p3 where p3: "frames st3 ?t = Some p3"
      and tr3: "promise_stackTrace p3 = promise_stackTrace p2"
      and nn3: "at_final_suspend p3 \<longrightarrow> promise_result p3 \<noteq> Exception_ptr None"
      and own3: "filter (\<lambda>c. fst c = ?t) new3 = own_calls ?t p3"
      by (auto simp: own_frame_def split: option.splits)
    from p2 p3 False have "await_callee pf callee st = (received p3, destroy \<lparr>handle = Some ?t\<rparr> st3)"
      by (simp add: await_callee_def await_state_def ex r ex3 await_ready_def is_ready_def handle_done_def
          await_suspend_def await_resume_def result_simps received_def Let_def)
    moreover from nn3 have "received p3 \<noteq> Undefined_behaviour"
      by (auto simp: received_def runtime_error_def split: variant.split option.split)
    moreover from s2' s3 have "step_of ?t st st3 (new2 @ new3)"
      by (rule step_of_trans)
    then have "step_of ?t st (destroy \<lparr>handle = Some ?t\<rparr> st3) (new2 @ new3)"
      by (rule step_of_destroy)
    moreover from own2 own3 False have "filter (\<lambda>c. fst c = ?t) (new2 @ new3) = own_calls ?t p3"
      by (simp add: own_calls_def)
    ultimately show ?thesis
      using tr2 tr3 p2 False
      by (intro exI [of _ "new2 @ new3"] exI [of _ p3]) (simp add: coroutine_call_def ex)
  qed
qed


lemma own_frame_Await:
  assumes "own_frame pf b h p st' r new2" and "\<And>rest. reach b rest \<Longrightarrow> reach (Await callee k c) rest"
    and "filter (\<lambda>c. fst c = h) new = filter (\<lambda>c. fst c = h) new2"
  shows "own_frame pf (Await callee k c) h p st' r new"
  using assms by (auto simp: own_frame_def split: option.splits)

lemma runs_well_Await:
  assumes callee: "runs_well pf callee"
    and rest: "\<And>rest. reach callee rest \<Longrightarrow> runs_well pf rest"
    and k: "\<And>v. runs_well pf (k v)"
    and c: "\<And>e. runs_well pf (c e)"
  shows "runs_well pf (Await callee k c)"
  unfolding runs_well_def
proof (intro allI impI)
  fix h and st :: "'a state" and p
  assume p: "frames st h = Some p" and nf: "\<not> at_final_suspend p" and h: "h < next_handle st"
  let ?b = "Await callee k c"
  obtain x st4 where ac: "await_callee pf callee st = (x, st4)"
    by (cases "await_callee pf callee st")
  from await_callee_step [OF callee rest, of st] ac obtain new1 where
    s1: "step_of (next_handle st) st st4 new1" and x: "x \<noteq> Undefined_behaviour"
    by auto
  from s1 h have p4: "frames st4 h = Some p" and h4: "h < next_handle st4"
    using p by (auto simp: step_of_def)
  have "\<exists>b'. runs_well pf b' \<and> exec pf ?b h st = exec pf b' h st4
           \<and> (\<forall>rest. reach b' rest \<longrightarrow> reach ?b rest)"
  proof (cases x)
    case (Returns v)
    with ac have "exec pf ?b h st = exec pf (k v) h st4"
      by (simp only: exec_Await) simp
    with k [of v] show ?thesis
      by (blast intro: reach.reach_value)
  next
    case (Raises e)
    with ac have "exec pf ?b h st = exec pf (c e) h st4"
      by (simp only: exec_Await) simp
    with c [of e] show ?thesis
      by (blast intro: reach.reach_catch)
  next
    case Undefined_behaviour
    with x show ?thesis by simp
  qed
  then obtain b' where b': "runs_well pf b'" and eq: "exec pf ?b h st = exec pf b' h st4"
    and re: "\<And>rest. reach b' rest \<Longrightarrow> reach ?b rest"
    by blast
  from b' p4 nf h4 obtain new2 where s2: "step_of h st4 (fst (exec pf b' h st4)) new2"
    and o2: "own_frame pf b' h p (fst (exec pf b' h st4)) (snd (exec pf b' h st4)) new2"
    unfolding runs_well_def by blast
  from step_of_outer [OF s1 h s2] own_frame_Await [OF o2 re]
  show "\<exists>new. step_of h st (fst (exec pf ?b h st)) new
           \<and> own_frame pf ?b h p (fst (exec pf ?b h st)) (snd (exec pf ?b h st)) new"
    unfolding eq by blast
qed

lemma reach_cases_strong:
  assumes "\<And>v. P (CoReturn v)" and "\<And>e. P (Throw e)"
    and "\<And>rest. P (Suspend rest)"
    and "\<And>callee k c. P callee \<Longrightarrow> (\<And>rest. reach callee rest \<Longrightarrow> P rest) \<Longrightarrow>
           (\<And>v. P (k v)) \<Longrightarrow> (\<And>e. P (c e)) \<Longrightarrow> P (Await callee k c)"
  shows "P b \<and> (\<forall>rest. reach b rest \<longrightarrow> P rest)"
proof (induction b)
  case (CoReturn v)
  show ?case using assms(1) by (auto elim: reach_CoReturnE)
next
  case (Throw e)
  show ?case using assms(2) by (auto elim: reach_ThrowE)
next
  case (Suspend rest)
  then show ?case using assms(3) by (auto elim: reach_SuspendE)
next
  case (Await callee k c)
  then have "P (Await callee k c)"
    by (intro assms(4)) auto
  moreover have "P rest" if "reach (Await callee k c) rest" for rest
    using that Await(2,3) by (elim reach_AwaitE) blast+
  ultimately show ?case by simp
qed

lemma runs_well: "runs_well pf b"
  using reach_cases_strong [where P = "runs_well pf" and b = b]
  by (blast intro: runs_well_CoReturn runs_well_Throw runs_well_Suspend runs_well_Await)

lemma tracked_coroutine_call: "tracked pf st (snd (coroutine_call pf b st))"
proof -
  let ?h = "next_handle st"
  let ?st1 = "body_state pf b st"
  let ?p0 = "\<lparr>promise_result = Exception_ptr None, promise_stackTrace = trace_at pf (captures st),
               at_final_suspend = False, resume_point = b\<rparr>"
  have "frames ?st1 ?h = Some ?p0" "\<not> at_final_suspend ?p0" "?h < next_handle ?st1"
    by (simp_all add: body_state_simps)
  with runs_well [of pf b] obtain new where s: "step_of ?h ?st1 (fst (exec pf b ?h ?st1)) new"
    and o: "own_frame pf b ?h ?p0 (fst (exec pf b ?h ?st1)) (snd (exec pf b ?h ?st1)) new"
    unfolding runs_well_def by blast
  from s o show ?thesis
    by (auto simp: tracked_def coroutine_call_def step_of_def own_frame_def body_state_simps
        calls_since_def split: option.splits)
qed

lemma tracked_run:
  assumes "tracked pf st s"
  shows "tracked pf st (run pf \<lparr>handle = Some (next_handle st)\<rparr> s)"
proof -
  let ?h = "next_handle st"
  from assms obtain p where p: "frames s ?h = Some p"
    by (auto simp: tracked_def split: option.splits)
  show ?thesis
  proof (cases "at_final_suspend p")
    case True
    with p assms show ?thesis
      by (simp add: run_def handle_done_def)
  next
    case False
    let ?b = "resume_point p"
    from p False have run: "run pf \<lparr>handle = Some ?h\<rparr> s = fst (exec pf ?b ?h s)"
      by (simp add: run_def handle_done_def resume_def)
    from assms have h: "?h < next_handle s"
      by (simp add: tracked_def)
    with runs_well [of pf ?b] p False obtain new where s: "step_of ?h s (fst (exec pf ?b ?h s)) new"
      and o: "own_frame pf ?b ?h p (fst (exec pf ?b ?h s)) (snd (exec pf ?b ?h s)) new"
      unfolding runs_well_def by blast
    from assms p False have old: "calls_since st s ?h = []"
        and tk: "take (length (reporter_calls st)) (reporter_calls s) = reporter_calls st"
        and tr: "promise_stackTrace p = trace_at pf (captures st)"
      by (simp_all add: tracked_def own_calls_def)
    from tk have len: "length (reporter_calls st) \<le> length (reporter_calls s)"
      by (metis length_take min.cobounded1)
    from s have rc: "reporter_calls (fst (exec pf ?b ?h s)) = reporter_calls s @ new"
      by (simp add: step_of_def)
    from old len have "calls_since st (fst (exec pf ?b ?h s)) ?h = filter (\<lambda>c. fst c = ?h) new"
      by (simp add: calls_since_def rc)
    with s o h tk tr len show ?thesis
      unfolding run
      by (auto simp: tracked_def step_of_def own_frame_def rc split: option.splits)
  qed
qed

lemma tracked_funpow:
  "tracked pf st ((run pf \<lparr>handle = Some (next_handle st)\<rparr> ^^ n) (snd (coroutine_call pf b st)))"
  by (induction n) (simp_all add: tracked_coroutine_call tracked_run)

lemmas call_defs =
  coroutine_call_def body_state_def new_frame_def initial_suspend_def
  await_ready_def await_resume_def await_suspend_def is_ready_def handle_done_def
  result_def destroy_def

text \<open>
  The resumption that \<open>exec\<close> gives back is the continuation the frame stores: what
  \<open>await_suspend\<close> does with it is \<open>handle.resume()\<close>. With the sink of the source, running
  a coroutine never terminates the program.
\<close>

lemma await_suspend_is_resume:
  assumes "frames st h = Some p" and "\<not> at_final_suspend p" and "h < next_handle st"
    and "exec pf b h st = (st', r)" and "\<not> handle_done st' h"
  shows "await_suspend r st' = resume pf h st'"
proof -
  from runs_well [of pf b] assms(1-4) obtain new where "own_frame pf b h p st' r new"
    unfolding runs_well_def by (metis fst_conv snd_conv)
  with assms(5) show ?thesis
    by (auto simp: own_frame_def handle_done_def await_suspend_def resume_def
        split: option.splits)
qed

lemma coroutine_call_not_aborted: "aborted (snd (coroutine_call pf b st)) = aborted st"
proof -
  let ?h = "next_handle st"
  let ?st1 = "body_state pf b st"
  have "\<exists>p. frames ?st1 ?h = Some p \<and> \<not> at_final_suspend p" "?h < next_handle ?st1"
    by (simp_all add: body_state_simps)
  with runs_well [of pf b] obtain new where "step_of ?h ?st1 (fst (exec pf b ?h ?st1)) new"
    unfolding runs_well_def by blast
  then show ?thesis
    by (simp add: step_of_def coroutine_call_def body_state_simps)
qed

text \<open>
  The reporter does with a non-null exception exactly what the sink does with its record,
  and nothing with the null pointer.
\<close>

lemma reportExceptionToFirebase_eq_sink:
  "reportExceptionToFirebase sink pf None stackTrace s = (None, s)"
  "reportExceptionToFirebase sink pf (Some e) stackTrace s =
     (case sink_record pf e stackTrace of (name, reason, text) \<Rightarrow> sink name reason text s)"
  by (simp_all add: reportExceptionToFirebase_def sink_record_def split: exn.split)

text \<open>
  An awaiting coroutine goes on after one resumption of its callee. When the callee is then
  still suspended, \<open>await_resume\<close> throws the exception of an unfinished task in the awaiting
  body, where it is an exception like any other.
\<close>

lemma await_callee_unfinished:
  "fst (await_callee pf (Suspend (Suspend rest)) st) =
     Raises (runtime_error ''TracedTask not completed'')"
  by (simp add: await_callee_def await_state_def call_defs update_frame_def Let_def)

text \<open>The sink receives what the reporter is called with.\<close>

lemma sink_follows_refl: "sink_follows pf st st"
  by (simp add: sink_follows_def)

lemma sink_follows_same:
  "reporter_calls st' = reporter_calls st \<Longrightarrow> crashlytics st' = crashlytics st \<Longrightarrow>
   sink_follows pf st st'"
  by (simp add: sink_follows_def)

lemma sink_follows_trans:
  "sink_follows pf st st1 \<Longrightarrow> sink_follows pf st1 st2 \<Longrightarrow> sink_follows pf st st2"
  unfolding sink_follows_def
proof (elim exE conjE)
  fix new1 new2
  assume "reporter_calls st1 = reporter_calls st @ new1"
    and "crashlytics st1 = crashlytics st @ concat (map (sink_records pf) new1)"
    and "reporter_calls st2 = reporter_calls st1 @ new2"
    and "crashlytics st2 = crashlytics st1 @ concat (map (sink_records pf) new2)"
  then show "\<exists>new. reporter_calls st2 = reporter_calls st @ new
       \<and> crashlytics st2 = crashlytics st @ concat (map (sink_records pf) new)"
    by (intro exI [of _ "new1 @ new2"]) simp
qed

lemma sink_follows_final_suspend: "sink_follows pf st (final_suspend pf h st)"
proof (cases "frames st h")
  case None
  then show ?thesis
    by (simp add: final_suspend_def sink_follows_refl)
next
  case (Some p)
  show ?thesis
  proof (cases "promise_result p")
    case (Success v)
    with Some show ?thesis
      by (simp add: final_suspend_def update_frame_def sink_follows_def)
  next
    case (Exception_ptr e)
    with Some show ?thesis
      unfolding sink_follows_def
      by (intro exI [of _ "[(h, e, promise_stackTrace p)]"])
        (simp add: promise_defs sink_records_def sink_record_def split: option.split exn.split)
  qed
qed

lemma result_state: "snd (result task st) = st"
  by (simp add: result_def split: option.split variant.split)

lemma sink_follows_update_frame:
  "sink_follows pf (update_frame h f st) st' \<Longrightarrow> sink_follows pf st st'"
  by (simp add: sink_follows_def update_frame_def)

lemma exec_resumption:
  "snd (exec pf b h st) = Some r \<Longrightarrow> \<exists>rest. reach b rest \<and> r = Resumption (exec pf rest h)"
proof (induction b arbitrary: st)
  case (CoReturn v)
  then show ?case by simp
next
  case (Throw e)
  then show ?case by simp
next
  case (Suspend b)
  then show ?case by (auto intro: reach.reach_here)
next
  case (Await callee k c)
  obtain x st4 where ac: "await_callee pf callee st = (x, st4)"
    by (cases "await_callee pf callee st")
  show ?case
  proof (cases x)
    case (Returns v)
    with ac Await.prems have "snd (exec pf (k v) h st4) = Some r"
      by (simp only: exec_Await) simp
    with Await.IH(2) [of "k v" st4] show ?thesis
      by (auto intro: reach.reach_value)
  next
    case (Raises e)
    with ac Await.prems have "snd (exec pf (c e) h st4) = Some r"
      by (simp only: exec_Await) simp
    with Await.IH(3) [of "c e" st4] show ?thesis
      by (auto intro: reach.reach_catch)
  next
    case Undefined_behaviour
    with ac Await.prems show ?thesis
      by (simp only: exec_Await) simp
  qed
qed

lemma sink_ok_Await:
  assumes callee: "sink_ok pf callee"
    and rest: "\<And>rest. reach callee rest \<Longrightarrow> sink_ok pf rest"
    and k: "\<And>v. sink_ok pf (k v)"
    and c: "\<And>e. sink_ok pf (c e)"
  shows "sink_ok pf (Await callee k c)"
  unfolding sink_ok_def
proof (intro allI)
  fix h and st :: "'a state"
  let ?t = "next_handle st"
  let ?st1 = "body_state pf callee st"
  obtain st2 r where ex: "exec pf callee ?t ?st1 = (st2, r)"
    by (cases "exec pf callee ?t ?st1")
  have s1: "sink_follows pf st ?st1"
    by (simp add: sink_follows_same body_state_simps)
  from callee ex have s2: "sink_follows pf ?st1 st2"
    unfolding sink_ok_def by (metis fst_conv)
  let ?st3 = "if await_ready \<lparr>handle = Some ?t\<rparr> st2 then st2 else await_suspend r st2"
  have s3: "sink_follows pf st2 ?st3"
  proof (cases r)
    case None
    then show ?thesis
      by (simp add: await_suspend_def sink_follows_same sink_follows_refl)
  next
    case (Some res)
    with ex exec_resumption [of pf callee ?t ?st1 res]
    obtain b' where "reach callee b'" and "res = Resumption (exec pf b' ?t)"
      by auto
    with rest [of b'] Some show ?thesis
      by (simp add: await_suspend_def sink_ok_def sink_follows_refl)
  qed
  obtain x where ac: "await_callee pf callee st = (x, destroy \<lparr>handle = Some ?t\<rparr> ?st3)"
    using result_state [of "\<lparr>handle = Some ?t\<rparr>" ?st3]
    by (cases "result \<lparr>handle = Some ?t\<rparr> ?st3")
      (simp add: await_callee_def await_state_def ex await_resume_def Let_def)
  have s4: "sink_follows pf ?st3 (destroy \<lparr>handle = Some ?t\<rparr> ?st3)"
    by (simp add: sink_follows_same destroy_def)
  from s1 s2 s3 s4 have s: "sink_follows pf st (destroy \<lparr>handle = Some ?t\<rparr> ?st3)"
    by (blast intro: sink_follows_trans)
  let ?st4 = "destroy \<lparr>handle = Some ?t\<rparr> ?st3"
  have "sink_follows pf ?st4 (fst (exec pf (Await callee k c) h st))"
  proof (cases x)
    case (Returns v)
    with ac have "exec pf (Await callee k c) h st = exec pf (k v) h ?st4"
      by (simp only: exec_Await) simp
    with k [of v] show ?thesis
      by (simp add: sink_ok_def)
  next
    case (Raises e)
    with ac have "exec pf (Await callee k c) h st = exec pf (c e) h ?st4"
      by (simp only: exec_Await) simp
    with c [of e] show ?thesis
      by (simp add: sink_ok_def)
  next
    case Undefined_behaviour
    with ac have "exec pf (Await callee k c) h st = (?st4\<lparr>aborted := True\<rparr>, None)"
      by (simp only: exec_Await) simp
    then show ?thesis
      by (simp add: sink_follows_same)
  qed
  with s show "sink_follows pf st (fst (exec pf (Await callee k c) h st))"
    by (rule sink_follows_trans)
qed

lemma sink_ok: "sink_ok pf b"
proof -
  have "sink_ok pf (CoReturn v)" for v :: 'a
    unfolding sink_ok_def exec.simps fst_conv return_value_def
    by (intro allI) (rule sink_follows_update_frame, rule sink_follows_final_suspend)
  moreover have "sink_ok pf (Throw e :: 'a body)" for e
    unfolding sink_ok_def exec.simps fst_conv unhandled_exception_def
    by (intro allI) (rule sink_follows_update_frame, rule sink_follows_final_suspend)
  moreover have "sink_ok pf (Suspend rest)" for rest :: "'a body"
    unfolding sink_ok_def by (simp add: sink_follows_same update_frame_def)
  ultimately show ?thesis
    using reach_cases_strong [where P = "sink_ok pf" and b = b]
    by (blast intro: sink_ok_Await)
qed

lemma sink_follows_coroutine_call: "sink_follows pf st (snd (coroutine_call pf b st))"
proof -
  have "sink_follows pf st (body_state pf b st)"
    by (simp add: sink_follows_same body_state_simps)
  moreover have "sink_follows pf (body_state pf b st)
      (fst (exec pf b (next_handle st) (body_state pf b st)))"
    using sink_ok [of pf b] by (simp add: sink_ok_def)
  ultimately show ?thesis
    unfolding coroutine_call_def snd_conv by (rule sink_follows_trans)
qed

lemma sink_follows_run: "sink_follows pf st (run pf task st)"
  using sink_ok [of pf]
  by (auto simp: run_def resume_def sink_ok_def sink_follows_refl sink_follows_same
      split: option.split)

lemma sink_follows_funpow: "sink_follows pf st ((run pf task ^^ n) st)"
proof (induction n)
  case 0
  show ?case by (simp add: sink_follows_refl)
next
  case (Suc n)
  from Suc sink_follows_run [of pf "(run pf task ^^ n) st" task] show ?case
    unfolding funpow.simps o_apply by (rule sink_follows_trans)
qed


text \<open>The state in which a \<open>co_await\<close> ends, and the frame of the callee in it.\<close>

lemma await_state_frame:
  "\<exists>new p. frames (await_state pf callee st) (next_handle st) = Some p
      \<and> step_of (next_handle st) st (await_state pf callee st) new
      \<and> promise_stackTrace p = trace_at pf (captures st)
      \<and> (at_final_suspend p \<longrightarrow> promise_result p \<noteq> Exception_ptr None)
      \<and> filter (\<lambda>c. fst c = next_handle st) new = own_calls (next_handle st) p
      \<and> next_handle st < next_handle (await_state pf callee st)"
proof -
  let ?t = "next_handle st"
  let ?st1 = "body_state pf callee st"
  let ?p0 = "\<lparr>promise_result = Exception_ptr None, promise_stackTrace = trace_at pf (captures st),
               at_final_suspend = False, resume_point = callee\<rparr>"
  obtain st2 r where ex: "exec pf callee ?t ?st1 = (st2, r)"
    by (cases "exec pf callee ?t ?st1")
  have "frames ?st1 ?t = Some ?p0" "\<not> at_final_suspend ?p0" "?t < next_handle ?st1"
    by (simp_all add: body_state_simps)
  with runs_well [of pf callee] ex obtain new2 where s2: "step_of ?t ?st1 st2 new2"
    and o2: "own_frame pf callee ?t ?p0 st2 r new2"
    unfolding runs_well_def by (metis fst_conv snd_conv)
  from o2 obtain p2 where p2: "frames st2 ?t = Some p2"
    and tr2: "promise_stackTrace p2 = trace_at pf (captures st)"
    and nn2: "at_final_suspend p2 \<longrightarrow> promise_result p2 \<noteq> Exception_ptr None"
    and own2: "filter (\<lambda>c. fst c = ?t) new2 = own_calls ?t p2"
    and r2: "r \<noteq> None \<longrightarrow> r = Some (Resumption (exec pf (resume_point p2) ?t))"
    and fin2: "at_final_suspend p2 \<longleftrightarrow> r = None"
    by (auto simp: own_frame_def split: option.splits)
  from s2 have s2': "step_of ?t st st2 new2"
    by (rule step_of_body_state)
  from s2 have lt2: "?t < next_handle st2"
    by (simp add: step_of_def body_state_simps)
  show ?thesis
  proof (cases "at_final_suspend p2")
    case True
    with p2 have "await_state pf callee st = st2"
      by (simp add: await_state_def ex await_ready_def is_ready_def handle_done_def)
    with p2 s2' tr2 nn2 own2 lt2 show ?thesis
      by (intro exI [of _ new2] exI [of _ p2]) simp
  next
    case False
    with fin2 r2 have r: "r = Some (Resumption (exec pf (resume_point p2) ?t))"
      by auto
    obtain st3 r3 where ex3: "exec pf (resume_point p2) ?t st2 = (st3, r3)"
      by (cases "exec pf (resume_point p2) ?t st2")
    from lt2 runs_well [of pf "resume_point p2"] p2 False ex3 obtain new3
      where s3: "step_of ?t st2 st3 new3"
        and o3: "own_frame pf (resume_point p2) ?t p2 st3 r3 new3"
      unfolding runs_well_def by (metis fst_conv snd_conv)
    from o3 obtain p3 where p3: "frames st3 ?t = Some p3"
      and tr3: "promise_stackTrace p3 = promise_stackTrace p2"
      and nn3: "at_final_suspend p3 \<longrightarrow> promise_result p3 \<noteq> Exception_ptr None"
      and own3: "filter (\<lambda>c. fst c = ?t) new3 = own_calls ?t p3"
      by (auto simp: own_frame_def split: option.splits)
    from p2 False have "await_state pf callee st = st3"
      by (simp add: await_state_def ex r ex3 await_ready_def is_ready_def handle_done_def
          await_suspend_def)
    moreover from s2' s3 have "step_of ?t st st3 (new2 @ new3)"
      by (rule step_of_trans)
    moreover from own2 own3 False have "filter (\<lambda>c. fst c = ?t) (new2 @ new3) = own_calls ?t p3"
      by (simp add: own_calls_def)
    moreover from s3 lt2 have "?t < next_handle st3"
      by (simp add: step_of_def)
    ultimately show ?thesis
      using p3 tr2 tr3 nn3 by (intro exI [of _ "new2 @ new3"] exI [of _ p3]) simp
  qed
qed

lemma await_callee_eq:
  "frames (await_state pf callee st) (next_handle st) = Some p \<Longrightarrow>
   await_callee pf callee st =
     (received p, destroy \<lparr>handle = Some (next_handle st)\<rparr> (await_state pf callee st))"
  by (simp add: await_callee_def await_resume_def result_simps received_def)

text \<open>
  A coroutine whose body starts with a \<open>co_await\<close>, called in the state \<open>st\<close>: \<open>p\<close> is the
  frame of the callee when \<open>await_resume\<close> is called.
\<close>

lemma coroutine_call_Await:
  assumes p: "frames (await_state pf callee (body_state pf (Await callee k c) st))
                (Suc (next_handle st)) = Some p"
  defines "st4 \<equiv> snd (await_callee pf callee (body_state pf (Await callee k c) st))"
  shows "fst (await_callee pf callee (body_state pf (Await callee k c) st)) = received p"
    and "received p \<noteq> Undefined_behaviour"
    and "promise_stackTrace p = trace_at pf (Suc (captures st))"
    and "frames st4 (next_handle st) =
           Some \<lparr>promise_result = Exception_ptr None,
                 promise_stackTrace = trace_at pf (captures st),
                 at_final_suspend = False, resume_point = Await callee k c\<rparr>"
    and "Suc (Suc (next_handle st)) \<le> next_handle st4"
    and "take (length (reporter_calls st)) (reporter_calls st4) = reporter_calls st"
    and "calls_since st st4 (Suc (next_handle st)) = own_calls (Suc (next_handle st)) p"
    and "calls_since st st4 (next_handle st) = []"
    and "snd (coroutine_call pf (Await callee k c) st) =
           fst (exec pf (case received p of Returns v \<Rightarrow> k v | Raises e \<Rightarrow> c e)
                  (next_handle st) st4)"
proof -
  let ?outer = "Await callee k c"
  let ?h = "next_handle st"
  let ?st1 = "body_state pf ?outer st"
  let ?sta = "await_state pf callee ?st1"
  have nh: "next_handle ?st1 = Suc ?h" and cp: "captures ?st1 = Suc (captures st)"
    and rc: "reporter_calls ?st1 = reporter_calls st"
    by (simp_all add: body_state_simps)
  from await_state_frame [of pf callee ?st1] p obtain new
    where s: "step_of (Suc ?h) ?st1 ?sta new"
      and tr: "promise_stackTrace p = trace_at pf (Suc (captures st))"
      and nn: "at_final_suspend p \<longrightarrow> promise_result p \<noteq> Exception_ptr None"
      and own: "filter (\<lambda>c. fst c = Suc ?h) new = own_calls (Suc ?h) p"
      and lt: "Suc ?h < next_handle ?sta"
    unfolding nh cp by auto
  from p have ac: "await_callee pf callee ?st1 = (received p, destroy \<lparr>handle = Some (Suc ?h)\<rparr> ?sta)"
    using await_callee_eq [of pf callee ?st1 p] by (simp add: nh)
  then have st4: "st4 = destroy \<lparr>handle = Some (Suc ?h)\<rparr> ?sta"
    by (simp add: st4_def)
  from ac show "fst (await_callee pf callee ?st1) = received p"
    by simp
  from nn show ub: "received p \<noteq> Undefined_behaviour"
    by (auto simp: received_def split: variant.split option.split)
  from tr show "promise_stackTrace p = trace_at pf (Suc (captures st))" .
  from s show "frames st4 ?h =
           Some \<lparr>promise_result = Exception_ptr None,
                 promise_stackTrace = trace_at pf (captures st),
                 at_final_suspend = False, resume_point = ?outer\<rparr>"
    by (simp add: st4 destroy_def step_of_def nh body_state_simps)
  from lt show "Suc (Suc ?h) \<le> next_handle st4"
    by (simp add: st4 destroy_def)
  from s have rc4: "reporter_calls st4 = reporter_calls st @ new"
    by (simp add: st4 destroy_def step_of_def rc)
  then show "take (length (reporter_calls st)) (reporter_calls st4) = reporter_calls st"
    by simp
  from rc4 own show "calls_since st st4 (Suc ?h) = own_calls (Suc ?h) p"
    by (simp add: calls_since_def)
  from s have "\<forall>c\<in>set new. fst c \<noteq> ?h"
    by (auto simp: step_of_def nh)
  with rc4 show "calls_since st st4 ?h = []"
    by (simp add: calls_since_def filter_empty_conv)
  have "exec pf ?outer ?h ?st1 =
          exec pf (case received p of Returns v \<Rightarrow> k v | Raises e \<Rightarrow> c e) ?h st4"
    using ub by (simp only: exec_Await ac st4) (simp split: outcome.split)
  then show "snd (coroutine_call pf ?outer st) =
           fst (exec pf (case received p of Returns v \<Rightarrow> k v | Raises e \<Rightarrow> c e) ?h st4)"
    by (simp add: coroutine_call_def)
qed

text \<open>The calls for a frame that exists do not change when another frame runs.\<close>

lemma calls_since_exec_other:
  assumes "frames s h = Some q" and "\<not> at_final_suspend q" and "h < next_handle s"
    and "t < next_handle s" and "t \<noteq> h"
    and "take (length (reporter_calls st)) (reporter_calls s) = reporter_calls st"
  shows "calls_since st (fst (exec pf b h s)) t = calls_since st s t"
proof -
  from runs_well [of pf b] assms(1-3) obtain new where "step_of h s (fst (exec pf b h s)) new"
    unfolding runs_well_def by blast
  then have rc: "reporter_calls (fst (exec pf b h s)) = reporter_calls s @ new"
    and "\<forall>c\<in>set new. fst c = h \<or> next_handle s \<le> fst c"
    by (simp_all add: step_of_def)
  with assms(4,5) have "filter (\<lambda>c. fst c = t) new = []"
    by (auto simp: filter_empty_conv)
  moreover from assms(6) have "length (reporter_calls st) \<le> length (reporter_calls s)"
    by (metis length_take min.cobounded1)
  ultimately show ?thesis
    by (simp add: calls_since_def rc)
qed

lemma exec_CoReturn_frame:
  assumes "frames s h = Some q"
  shows "frames (fst (exec pf (CoReturn v) h s)) h =
           Some (q\<lparr>promise_result := Success v, at_final_suspend := True\<rparr>)"
    and "reporter_calls (fst (exec pf (CoReturn v) h s)) = reporter_calls s"
  using assms by (simp_all add: promise_defs)

lemma exec_Throw_frame:
  assumes "frames s h = Some q"
  shows "frames (fst (exec pf (Throw e) h s)) h =
           Some (q\<lparr>promise_result := Exception_ptr (Some e), at_final_suspend := True\<rparr>)"
    and "reporter_calls (fst (exec pf (Throw e) h s)) =
           reporter_calls s @ [(h, Some e, promise_stackTrace q)]"
  using assms by (cases e; simp add: promise_defs)+

text \<open>The reporter calls for the frame of a task, after its call, by what the task holds.\<close>

lemma calls_since_coroutine_call:
  "calls_since st (snd (coroutine_call pf b st)) (next_handle st) =
     (if is_ready \<lparr>handle = Some (next_handle st)\<rparr> (snd (coroutine_call pf b st))
      then (case fst (result \<lparr>handle = Some (next_handle st)\<rparr> (snd (coroutine_call pf b st))) of
              Raises e \<Rightarrow> [(next_handle st, Some e, trace_at pf (captures st))]
            | Returns v \<Rightarrow> []
            | Undefined_behaviour \<Rightarrow> [])
      else [])"
proof -
  let ?s = "snd (coroutine_call pf b st)"
  from tracked_coroutine_call [of pf st b]
  obtain p where p: "frames ?s (next_handle st) = Some p"
    and tr: "promise_stackTrace p = trace_at pf (captures st)"
    and nn: "at_final_suspend p \<longrightarrow> promise_result p \<noteq> Exception_ptr None"
    and calls: "calls_since st ?s (next_handle st) = own_calls (next_handle st) p"
    by (auto simp: tracked_def split: option.splits)
  from p nn tr show ?thesis
    unfolding calls
    by (auto simp: is_ready_def handle_done_def result_simps own_calls_def
        split: variant.split option.split)
qed

text \<open>
  After the \<open>co_await\<close> of a callee, the awaiting body goes on in the frame \<open>h\<close> with a
  \<open>co_return\<close> or with an exception that leaves it.
\<close>

lemma after_await_CoReturn:
  assumes "frames st4 h = Some q" and "calls_since st st4 h = []"
    and "take (length (reporter_calls st)) (reporter_calls st4) = reporter_calls st"
  shows "is_ready \<lparr>handle = Some h\<rparr> (fst (exec pf (CoReturn v) h st4))"
    and "fst (result \<lparr>handle = Some h\<rparr> (fst (exec pf (CoReturn v) h st4))) = Returns v"
    and "calls_since st (fst (exec pf (CoReturn v) h st4)) h = []"
  using assms exec_CoReturn_frame [OF assms(1), of pf v]
  by (simp_all add: is_ready_def handle_done_def result_simps calls_since_def del: exec.simps)

lemma after_await_Throw:
  assumes "frames st4 h = Some q" and "calls_since st st4 h = []"
    and "take (length (reporter_calls st)) (reporter_calls st4) = reporter_calls st"
  shows "is_ready \<lparr>handle = Some h\<rparr> (fst (exec pf (Throw e) h st4))"
    and "fst (result \<lparr>handle = Some h\<rparr> (fst (exec pf (Throw e) h st4))) = Raises e"
    and "calls_since st (fst (exec pf (Throw e) h st4)) h = [(h, Some e, promise_stackTrace q)]"
proof -
  from assms(3) have len: "length (reporter_calls st) \<le> length (reporter_calls st4)"
    by (metis length_take min.cobounded1)
  from exec_Throw_frame [OF assms(1), of pf e]
  show "is_ready \<lparr>handle = Some h\<rparr> (fst (exec pf (Throw e) h st4))"
    and "fst (result \<lparr>handle = Some h\<rparr> (fst (exec pf (Throw e) h st4))) = Raises e"
    by (simp_all add: is_ready_def handle_done_def result_simps del: exec.simps)
  from exec_Throw_frame [OF assms(1), of pf e] assms(2) len
  show "calls_since st (fst (exec pf (Throw e) h st4)) h = [(h, Some e, promise_stackTrace q)]"
    by (simp add: calls_since_def del: exec.simps)
qed

text \<open>
  A coroutine that suspends first: its call returns with nothing of the body done, and the
  first \<open>handle.resume()\<close>, by \<open>run\<close> or by the \<open>await_suspend\<close> of an awaiting coroutine,
  does what the call of the coroutine without that suspension does.
\<close>

lemma coroutine_call_Suspend:
  "snd (coroutine_call pf (Suspend b) st) = body_state pf b st"
  by (simp add: coroutine_call_def body_state_def new_frame_def initial_suspend_def
      update_frame_def)

lemma run_body_state:
  "run pf \<lparr>handle = Some (next_handle st)\<rparr> (body_state pf b st) = snd (coroutine_call pf b st)"
  by (simp add: run_def resume_def handle_done_def coroutine_call_def body_state_simps)

lemma run_after_suspensions:
  "(run pf \<lparr>handle = Some (next_handle st)\<rparr> ^^ a)
     (snd (coroutine_call pf (after_suspensions a b) st)) = snd (coroutine_call pf b st)"
proof (induction a)
  case 0
  show ?case by simp
next
  case (Suc a)
  have "(run pf \<lparr>handle = Some (next_handle st)\<rparr> ^^ Suc a)
          (snd (coroutine_call pf (after_suspensions (Suc a) b) st)) =
        (run pf \<lparr>handle = Some (next_handle st)\<rparr> ^^ a)
          (run pf \<lparr>handle = Some (next_handle st)\<rparr>
             (snd (coroutine_call pf (Suspend (after_suspensions a b)) st)))"
    by (simp only: funpow_Suc_right o_apply after_suspensions.simps)
  also have "\<dots> = (run pf \<lparr>handle = Some (next_handle st)\<rparr> ^^ a)
                     (snd (coroutine_call pf (after_suspensions a b) st))"
    by (simp only: coroutine_call_Suspend run_body_state)
  also have "\<dots> = snd (coroutine_call pf b st)"
    by (rule Suc.IH)
  finally show ?case .
qed

lemma run_ready: "is_ready task s \<Longrightarrow> (run pf task ^^ n) s = s"
  by (induction n) (simp_all add: run_def is_ready_def split: option.splits)

lemma run_enough:
  assumes "a \<le> n"
    and "is_ready \<lparr>handle = Some (next_handle st)\<rparr> (snd (coroutine_call pf b st))"
  shows "(run pf \<lparr>handle = Some (next_handle st)\<rparr> ^^ n)
           (snd (coroutine_call pf (after_suspensions a b) st)) = snd (coroutine_call pf b st)"
proof -
  from assms(1) obtain d where n: "n = d + a"
    by (metis le_add_diff_inverse2)
  show ?thesis
    unfolding n funpow_add o_apply run_after_suspensions
    by (rule run_ready [OF assms(2)])
qed

lemma await_state_Suspend:
  "await_state pf (Suspend b) st = snd (coroutine_call pf b st)"
  by (simp add: await_state_def await_ready_def await_suspend_def is_ready_def handle_done_def
      coroutine_call_def body_state_def new_frame_def initial_suspend_def update_frame_def
      Let_def)

lemma await_state_ready:
  "is_ready \<lparr>handle = Some (next_handle st)\<rparr> (snd (coroutine_call pf b st)) \<Longrightarrow>
   await_state pf b st = snd (coroutine_call pf b st)"
  by (cases "exec pf b (next_handle st) (body_state pf b st)")
    (simp add: await_state_def await_ready_def coroutine_call_def Let_def)

lemma await_state_after_suspensions:
  assumes "i \<le> 1"
    and "is_ready \<lparr>handle = Some (next_handle st)\<rparr> (snd (coroutine_call pf b st))"
  shows "await_state pf (after_suspensions i b) st = snd (coroutine_call pf b st)"
proof -
  from assms(1) have "i = 0 \<or> i = Suc 0"
    by arith
  with assms(2) show ?thesis
    by (auto simp: await_state_Suspend await_state_ready)
qed


lemma await_callee_after_suspensions:
  assumes "i \<le> 1"
    and "is_ready \<lparr>handle = Some (next_handle st)\<rparr> (snd (coroutine_call pf b st))"
  shows "await_callee pf (after_suspensions i b) st =
           (fst (result \<lparr>handle = Some (next_handle st)\<rparr> (snd (coroutine_call pf b st))),
            destroy \<lparr>handle = Some (next_handle st)\<rparr> (snd (coroutine_call pf b st)))"
  using result_state [of "\<lparr>handle = Some (next_handle st)\<rparr>" "snd (coroutine_call pf b st)"]
  by (simp add: await_callee_def await_state_after_suspensions [OF assms] await_resume_def
      case_prod_beta Let_def)

text \<open>An exception that leaves the body running in the frame \<open>h\<close>.\<close>

lemma exec_Throw_state:
  assumes "frames s h = Some q"
  shows "frames (fst (exec pf (Throw e) h s)) =
           (frames s)(h \<mapsto> q\<lparr>promise_result := Exception_ptr (Some e), at_final_suspend := True\<rparr>)"
    and "next_handle (fst (exec pf (Throw e) h s)) = next_handle s"
    and "captures (fst (exec pf (Throw e) h s)) = captures s"
    and "reporter_calls (fst (exec pf (Throw e) h s)) =
           reporter_calls s @ [(h, Some e, promise_stackTrace q)]"
    and "crashlytics (fst (exec pf (Throw e) h s)) =
           crashlytics s @ [sink_record pf e (promise_stackTrace q)]"
  using assms by (cases e; simp add: promise_defs sink_record_def)+

text \<open>
  A coroutine whose body awaits a callee, when the \<open>co_await\<close> throws \<open>e\<close>: the body goes on
  in its handler, or the exception leaves it.
\<close>

lemma coroutine_call_Await_raises:
  assumes "await_callee pf callee (body_state pf (Await callee k c) st) = (Raises e, st4)"
  shows "snd (coroutine_call pf (Await callee k c) st) = fst (exec pf (c e) (next_handle st) st4)"
  using assms by (simp only: coroutine_call_def snd_conv exec_Await) simp

text \<open>The call of a coroutine whose body throws \<open>e\<close>.\<close>

lemma coroutine_call_Throw:
  "frames (snd (coroutine_call pf (Throw e) st)) =
     (frames st)(next_handle st \<mapsto>
        \<lparr>promise_result = Exception_ptr (Some e), promise_stackTrace = trace_at pf (captures st),
         at_final_suspend = True, resume_point = Throw e\<rparr>)"
  "next_handle (snd (coroutine_call pf (Throw e) st)) = Suc (next_handle st)"
  "captures (snd (coroutine_call pf (Throw e) st)) = Suc (captures st)"
  "reporter_calls (snd (coroutine_call pf (Throw e) st)) =
     reporter_calls st @ [(next_handle st, Some e, trace_at pf (captures st))]"
  "crashlytics (snd (coroutine_call pf (Throw e) st)) =
     crashlytics st @ [sink_record pf e (trace_at pf (captures st))]"
proof -
  let ?s = "body_state pf (Throw e) st"
  have f: "frames ?s (next_handle st) =
             Some \<lparr>promise_result = Exception_ptr None, promise_stackTrace = trace_at pf (captures st),
                   at_final_suspend = False, resume_point = Throw e\<rparr>"
    by (simp add: body_state_simps)
  note t = exec_Throw_state [OF f, of pf e]
  show "frames (snd (coroutine_call pf (Throw e) st)) =
     (frames st)(next_handle st \<mapsto>
        \<lparr>promise_result = Exception_ptr (Some e), promise_stackTrace = trace_at pf (captures st),
         at_final_suspend = True, resume_point = Throw e\<rparr>)"
    unfolding coroutine_call_def snd_conv t by (simp add: body_state_simps)
  show "next_handle (snd (coroutine_call pf (Throw e) st)) = Suc (next_handle st)"
    unfolding coroutine_call_def snd_conv t by (simp add: body_state_simps)
  show "captures (snd (coroutine_call pf (Throw e) st)) = Suc (captures st)"
    unfolding coroutine_call_def snd_conv t by (simp add: body_state_simps)
  show "reporter_calls (snd (coroutine_call pf (Throw e) st)) =
     reporter_calls st @ [(next_handle st, Some e, trace_at pf (captures st))]"
    unfolding coroutine_call_def snd_conv t by (simp add: body_state_simps)
  show "crashlytics (snd (coroutine_call pf (Throw e) st)) =
     crashlytics st @ [sink_record pf e (trace_at pf (captures st))]"
    unfolding coroutine_call_def snd_conv t by (simp add: body_state_simps)
qed

text \<open>
  The call of a coroutine that awaits a coroutine whose body throws \<open>e\<close>, at once or when
  it is first resumed, and that throws \<open>e'\<close> then: \<open>e\<close> itself when it does not catch.
\<close>

lemma coroutine_call_two_levels:
  fixes pf :: platform and st :: "'v state" and k :: "'v \<Rightarrow> 'v body" and e e' :: exn
  assumes "i \<le> 1" and "c e = Throw e'"
  defines "s' \<equiv> snd (coroutine_call pf (Await (after_suspensions i (Throw e)) k c) st)"
  shows "frames s' =
           (frames st)(Suc (next_handle st) := None,
              next_handle st \<mapsto>
                \<lparr>promise_result = Exception_ptr (Some e'),
                 promise_stackTrace = trace_at pf (captures st),
                 at_final_suspend = True,
                 resume_point = Await (after_suspensions i (Throw e)) k c\<rparr>)"
    and "next_handle s' = Suc (Suc (next_handle st))"
    and "captures s' = Suc (Suc (captures st))"
    and "reporter_calls s' = reporter_calls st @
           [(Suc (next_handle st), Some e, trace_at pf (Suc (captures st))),
            (next_handle st, Some e', trace_at pf (captures st))]"
    and "crashlytics s' = crashlytics st @
           [sink_record pf e (trace_at pf (Suc (captures st))),
            sink_record pf e' (trace_at pf (captures st))]"
proof -
  let ?M = "Await (after_suspensions i (Throw e)) k c"
  let ?s1 = "body_state pf ?M st"
  let ?t = "next_handle st"
  let ?s4 = "destroy \<lparr>handle = Some (Suc ?t)\<rparr> (snd (coroutine_call pf (Throw e) ?s1))"
  have nh: "next_handle ?s1 = Suc ?t"
    by (simp add: body_state_simps)
  have rdy: "is_ready \<lparr>handle = Some (next_handle ?s1)\<rparr> (snd (coroutine_call pf (Throw e) ?s1))"
    by (simp add: is_ready_def handle_done_def coroutine_call_Throw)
  have res: "fst (result \<lparr>handle = Some (next_handle ?s1)\<rparr> (snd (coroutine_call pf (Throw e) ?s1)))
               = Raises e"
    by (simp add: result_def is_ready_def handle_done_def coroutine_call_Throw)
  from await_callee_after_suspensions [OF assms(1) rdy] res
  have ac: "await_callee pf (after_suspensions i (Throw e)) ?s1 = (Raises e, ?s4)"
    by (simp add: nh)
  have s': "s' = fst (exec pf (Throw e') ?t ?s4)"
    unfolding s'_def coroutine_call_Await_raises [OF ac] assms(2) by (rule refl)
  have f4: "frames ?s4 ?t =
              Some \<lparr>promise_result = Exception_ptr None, promise_stackTrace = trace_at pf (captures st),
                    at_final_suspend = False, resume_point = ?M\<rparr>"
    by (simp add: destroy_def coroutine_call_Throw body_state_simps)
  note t = exec_Throw_state [OF f4, of pf e']
  show "frames s' =
           (frames st)(Suc ?t := None,
              ?t \<mapsto> \<lparr>promise_result = Exception_ptr (Some e'),
                     promise_stackTrace = trace_at pf (captures st),
                     at_final_suspend = True, resume_point = ?M\<rparr>)"
    unfolding s' t by (simp add: destroy_def coroutine_call_Throw body_state_simps fun_eq_iff)
  show "next_handle s' = Suc (Suc ?t)"
    unfolding s' t by (simp add: destroy_def coroutine_call_Throw body_state_simps)
  show "captures s' = Suc (Suc (captures st))"
    unfolding s' t by (simp add: destroy_def coroutine_call_Throw body_state_simps)
  show "reporter_calls s' = reporter_calls st @
           [(Suc ?t, Some e, trace_at pf (Suc (captures st))), (?t, Some e', trace_at pf (captures st))]"
    unfolding s' t by (simp add: destroy_def coroutine_call_Throw body_state_simps)
  show "crashlytics s' = crashlytics st @
           [sink_record pf e (trace_at pf (Suc (captures st))),
            sink_record pf e' (trace_at pf (captures st))]"
    unfolding s' t by (simp add: destroy_def coroutine_call_Throw body_state_simps)
qed

lemma coroutine_call_three_levels:
  fixes pf :: platform and st :: "'v state" and k1 k2 :: "'v \<Rightarrow> 'v body"
    and e :: exn
  assumes "i \<le> 1" and "m \<le> 1"
  defines "middle \<equiv> after_suspensions m (Await (after_suspensions i (Throw e)) k2 Throw)"
  defines "s' \<equiv> snd (coroutine_call pf (Await middle k1 Throw) st)"
  shows "reporter_calls s' = reporter_calls st @
           [(next_handle st + 2, Some e, trace_at pf (captures st + 2)),
            (next_handle st + 1, Some e, trace_at pf (captures st + 1)),
            (next_handle st, Some e, trace_at pf (captures st))]"
    and "crashlytics s' = crashlytics st @
           [sink_record pf e (trace_at pf (captures st + 2)),
            sink_record pf e (trace_at pf (captures st + 1)),
            sink_record pf e (trace_at pf (captures st))]"
    and "is_ready \<lparr>handle = Some (next_handle st)\<rparr> s'"
    and "fst (result \<lparr>handle = Some (next_handle st)\<rparr> s') = Raises e"
proof -
  let ?M = "Await (after_suspensions i (Throw e)) k2 Throw"
  let ?O = "Await middle k1 Throw"
  let ?s1 = "body_state pf ?O st"
  let ?h = "next_handle st"
  let ?s2 = "snd (coroutine_call pf ?M ?s1)"
  let ?s4 = "destroy \<lparr>handle = Some (Suc ?h)\<rparr> ?s2"
  note two = coroutine_call_two_levels [OF assms(1) refl, where pf = pf and e = e and k = k2 and st = ?s1]
  have nh: "next_handle ?s1 = Suc ?h"
    by (simp add: body_state_simps)
  have rdy: "is_ready \<lparr>handle = Some (next_handle ?s1)\<rparr> ?s2"
    by (simp add: is_ready_def handle_done_def two)
  have res: "fst (result \<lparr>handle = Some (next_handle ?s1)\<rparr> ?s2) = Raises e"
    by (simp add: result_def is_ready_def handle_done_def two)
  from await_callee_after_suspensions [OF assms(2) rdy] res
  have ac: "await_callee pf middle ?s1 = (Raises e, ?s4)"
    by (simp add: middle_def body_state_simps)
  have s': "s' = fst (exec pf (Throw e) ?h ?s4)"
    unfolding s'_def by (rule coroutine_call_Await_raises [OF ac])
  have f4: "frames ?s4 ?h =
              Some \<lparr>promise_result = Exception_ptr None, promise_stackTrace = trace_at pf (captures st),
                    at_final_suspend = False, resume_point = ?O\<rparr>"
    by (simp add: destroy_def two body_state_simps)
  note t = exec_Throw_state [OF f4, of pf e]
  show "reporter_calls s' = reporter_calls st @
           [(?h + 2, Some e, trace_at pf (captures st + 2)),
            (?h + 1, Some e, trace_at pf (captures st + 1)),
            (?h, Some e, trace_at pf (captures st))]"
    unfolding s' t by (simp add: destroy_def two body_state_simps)
  show "crashlytics s' = crashlytics st @
           [sink_record pf e (trace_at pf (captures st + 2)),
            sink_record pf e (trace_at pf (captures st + 1)),
            sink_record pf e (trace_at pf (captures st))]"
    unfolding s' t by (simp add: destroy_def two body_state_simps)
  show "is_ready \<lparr>handle = Some ?h\<rparr> s'"
    unfolding s' by (simp add: is_ready_def handle_done_def t del: exec.simps)
  show "fst (result \<lparr>handle = Some ?h\<rparr> s') = Raises e"
    unfolding s' by (simp add: result_def is_ready_def handle_done_def t del: exec.simps)
qed

lemma fst_coroutine_call:
  "fst (coroutine_call pf b st) = \<lparr>handle = Some (next_handle st)\<rparr>"
  by (simp add: coroutine_call_def)

lemma runTask_ready:
  "is_ready task s \<Longrightarrow> runTask pf task s = (fst (result task s), s)"
  using result_state [of task s] run_ready [where task = task and s = s and pf = pf and n = 1]
  by (simp add: runTask_def prod_eq_iff)

lemma calls_since_initial_state:
  "calls_since (initial_state :: 'v state) s h = filter (\<lambda>c. fst c = h) (reporter_calls s)"
  by (simp add: calls_since_def initial_state_def)

text \<open>A task that is not ready after its call and \<open>n\<close> calls of \<open>run\<close> has no report.\<close>

lemma calls_since_not_ready:
  assumes "\<not> is_ready \<lparr>handle = Some (next_handle st)\<rparr>
             ((run pf \<lparr>handle = Some (next_handle st)\<rparr> ^^ n) (snd (coroutine_call pf b st)))"
  shows "calls_since st ((run pf \<lparr>handle = Some (next_handle st)\<rparr> ^^ n)
           (snd (coroutine_call pf b st))) (next_handle st) = []"
  using tracked_funpow [of pf st n b] assms
  by (auto simp: tracked_def is_ready_def handle_done_def own_calls_def split: option.splits)

text \<open>
  A coroutine whose body awaits a callee that is not finished when the \<open>co_await\<close> has
  resumed it: \<open>await_resume\<close> throws in the body.
\<close>

lemma coroutine_call_Await_unfinished:
  fixes pf :: platform and st :: "'v state"
  assumes nr: "\<not> is_ready \<lparr>handle = Some (Suc (next_handle st))\<rparr>
                 (await_state pf callee (body_state pf (Await callee k c) st))"
  defines "e \<equiv> runtime_error ''TracedTask not completed''"
  defines "st4 \<equiv> snd (await_callee pf callee (body_state pf (Await callee k c) st))"
  defines "st' \<equiv> snd (coroutine_call pf (Await callee k c) st)"
  shows "fst (await_callee pf callee (body_state pf (Await callee k c) st)) = Raises e"
    and "st' = fst (exec pf (c e) (next_handle st) st4)"
    and "calls_since st st4 (next_handle st) = []"
    and "calls_since st st' (Suc (next_handle st)) = []"
    and "c e = CoReturn v \<Longrightarrow>
           is_ready \<lparr>handle = Some (next_handle st)\<rparr> st'
           \<and> fst (result \<lparr>handle = Some (next_handle st)\<rparr> st') = Returns v
           \<and> calls_since st st' (next_handle st) = []"
    and "c e = Throw e' \<Longrightarrow>
           is_ready \<lparr>handle = Some (next_handle st)\<rparr> st'
           \<and> fst (result \<lparr>handle = Some (next_handle st)\<rparr> st') = Raises e'
           \<and> calls_since st st' (next_handle st) =
               [(next_handle st, Some e', trace_at pf (captures st))]"
proof -
  let ?h = "next_handle st"
  let ?outer = "Await callee k c"
  let ?st1 = "body_state pf ?outer st"
  let ?sta = "await_state pf callee ?st1"
  let ?p0 = "\<lparr>promise_result = Exception_ptr None, promise_stackTrace = trace_at pf (captures st),
               at_final_suspend = False, resume_point = ?outer\<rparr>"
  have nh: "next_handle ?st1 = Suc ?h"
    by (simp add: body_state_simps)
  from await_state_frame [of pf callee ?st1] obtain p where p: "frames ?sta (Suc ?h) = Some p"
    unfolding nh by blast
  from nr p have fin: "\<not> at_final_suspend p"
    by (simp add: is_ready_def handle_done_def)
  then have rec: "received p = Raises e"
    by (simp add: received_def e_def)
  note ca = coroutine_call_Await [OF p]
  from ca(1) rec show x: "fst (await_callee pf callee ?st1) = Raises e"
    by simp
  from ca(9) rec show st': "st' = fst (exec pf (c e) ?h st4)"
    unfolding st'_def st4_def by simp
  from ca(8) show "calls_since st st4 ?h = []"
    unfolding st4_def .
  from ca(7) fin have callee4: "calls_since st st4 (Suc ?h) = []"
    unfolding st4_def by (simp add: own_calls_def)
  have nf: "\<not> at_final_suspend ?p0"
    by simp
  from ca(5) have lt: "?h < next_handle st4" "Suc ?h < next_handle st4" "Suc ?h \<noteq> ?h"
    unfolding st4_def by simp_all
  have "calls_since st (fst (exec pf (c e) ?h st4)) (Suc ?h) = calls_since st st4 (Suc ?h)"
    using ca(4,6) unfolding st4_def [symmetric] by (rule calls_since_exec_other [OF _ nf lt])
  with callee4 st' show "calls_since st st' (Suc ?h) = []"
    by simp
  show "is_ready \<lparr>handle = Some ?h\<rparr> st'
        \<and> fst (result \<lparr>handle = Some ?h\<rparr> st') = Returns v
        \<and> calls_since st st' ?h = []" if "c e = CoReturn v"
    using after_await_CoReturn [OF ca(4) ca(8) ca(6), where v = v and pf = pf] that
    unfolding st' st4_def by simp
  show "is_ready \<lparr>handle = Some ?h\<rparr> st'
        \<and> fst (result \<lparr>handle = Some ?h\<rparr> st') = Raises e'
        \<and> calls_since st st' ?h = [(?h, Some e', trace_at pf (captures st))]" if "c e = Throw e'"
    using after_await_Throw [OF ca(4) ca(8) ca(6), where e = e' and pf = pf] that
    unfolding st' st4_def by simp
qed

lemma not_ready_body_state:
  "\<not> is_ready \<lparr>handle = Some (next_handle st)\<rparr> (body_state pf b st)"
  by (simp add: is_ready_def handle_done_def body_state_simps)


section \<open>The claims\<close>

subsection \<open>Backtrace capture and formatting\<close>

text \<open>
  Claim C6. Each resolved frame attempts demangling; the demangled name is the symbol when
  demangling succeeds, and on failure the capture falls back to the raw text of the
  provider. \<open>intoSymbolicInfo\<close> does the opposite, its test of the status being inverted:
  on the example platform the name of \<open>0x401136\<close> demangles to \<open>foo()\<close> with status 0, and
  the symbol of the frame is the raw text of \<open>backtrace_symbols\<close>; the name of \<open>0x401200\<close>
  is rejected, and the symbol is empty although the raw text is there.
\<close>

theorem intoSymbolicInfo_drops_demangled_name:
  "cxa_demangle example_platform ''_Z3foov'' = (Some ''foo()'', 0)
   \<and> symbol (intoSymbolicInfo example_platform 0x401136 (Some ''./a.out(_Z3foov+0x10) [0x401136]''))
       = ''./a.out(_Z3foov+0x10) [0x401136]''
   \<and> cxa_demangle example_platform ''main'' = (None, - 2)
   \<and> symbol (intoSymbolicInfo example_platform 0x401200 (Some ''./a.out(main+0x20) [0x401200]''))
       = []"
  by (simp add: intoSymbolicInfo_def example_platform_def example_dladdr_def
      example_demangle_def ptr_to_string_def)

text \<open>
  Claim C8. \<open>current\<close> skips the first two frames that \<open>backtrace\<close> stores, looks at no
  more than \<open>DEPTH_MAX\<close> frames (128 for the capture of a task), and gives the empty trace
  when \<open>backtrace\<close> stores no frame or \<open>backtrace_symbols\<close> gives no table.
\<close>

theorem current_skips_two_and_is_bounded:
  "map address (current DEPTH_MAX pf stack) =
     (if symbols_available pf then drop 2 (take DEPTH_MAX stack) else [])
   \<and> length (current DEPTH_MAX pf stack) \<le> DEPTH_MAX - 2
   \<and> (stack = [] \<or> \<not> symbols_available pf \<longrightarrow> current DEPTH_MAX pf stack = [])
   \<and> trace_at pf n = current 128 pf (native_stack pf n)"
  by (auto simp: current_eq comp_def trace_at_def DEPTH_MAX_default_def)

theorem current_skips_two_and_is_bounded_witness:
  "map address (current 4 example_platform [0x401900, 0x401800, 0x401136, 0x401200, 0x500000]) =
     [0x401136, 0x401200]
   \<and> length (current 4 example_platform [0x401900, 0x401800, 0x401136, 0x401200, 0x500000]) \<le> 4 - 2
   \<and> current 4 (example_platform\<lparr>symbols_available := False\<rparr>) [0x401900, 0x401800, 0x401136] = []
   \<and> current 4 example_platform [] = []"
  using current_skips_two_and_is_bounded [of 4 example_platform "[0x401900, 0x401800, 0x401136, 0x401200, 0x500000]" 0]
    current_skips_two_and_is_bounded [of 4 "example_platform\<lparr>symbols_available := False\<rparr>" "[0x401900, 0x401800, 0x401136]" 0]
    current_skips_two_and_is_bounded [of 4 example_platform "[]" 0]
  by (simp add: example_platform_def)

text \<open>
  Claim C9. \<open>toString\<close> is a function of the trace (and of how the platform prints an
  address): its text is the lines of the frames in the order of the trace, one for each
  frame, each made of the index, the address, the symbol or \<open>???\<close>, the offset field, which
  is there exactly when the offset is greater than zero, and the module field, which is
  there exactly when the file name is not empty.
\<close>

theorem toString_one_line_per_frame:
  "toString pf stackTrace =
     concat (map (\<lambda>i. frame_line pf i (stackTrace ! i)) [0..<length stackTrace])
   \<and> (offset_field frame \<noteq> [] \<longleftrightarrow> 0 < offset (symbolicInfo frame))
   \<and> (module_field frame \<noteq> [] \<longleftrightarrow> fileName (symbolicInfo frame) \<noteq> [])
   \<and> (symbol_field frame = ''???'' \<or> symbol_field frame = symbol (symbolicInfo frame))"
  by (simp add: toString_def toString_loop_eq offset_field_def module_field_def symbol_field_def)

theorem toString_one_line_per_frame_witness:
  "toString example_platform
     [\<lparr>address = 0x401136, symbolicInfo = \<lparr>symbol = ''foo()'', fileName = ''./a.out'', offset = 0x1136\<rparr>\<rparr>,
      \<lparr>address = 0x500000, symbolicInfo = \<lparr>symbol = [], fileName = [], offset = 0\<rparr>\<rparr>]
   = ''#0: 0x401136 foo() +4406 in ./a.out'' @ [CHR 0x0A] @ ''#1: 0x500000 ???'' @ [CHR 0x0A]"
  using toString_one_line_per_frame [of example_platform
     "[\<lparr>address = 0x401136, symbolicInfo = \<lparr>symbol = ''foo()'', fileName = ''./a.out'', offset = 0x1136\<rparr>\<rparr>,
      \<lparr>address = 0x500000, symbolicInfo = \<lparr>symbol = [], fileName = [], offset = 0\<rparr>\<rparr>]"
     "\<lparr>address = 0x500000, symbolicInfo = \<lparr>symbol = [], fileName = [], offset = 0\<rparr>\<rparr>"]
  by (simp add: frame_line_def symbol_field_def offset_field_def module_field_def
      example_platform_def digit_char_def hex_digit_def upt_rec
      show_nat_numeral show_nat_0 show_nat_1 show_hex_numeral)

subsection \<open>The reporter\<close>

text \<open>
  Claim C5 says that the reporter never raises, whatever the sink does. It does raise when
  the sink does: with a sink that throws, the exception leaves \<open>reportExceptionToFirebase\<close>.
\<close>

theorem reportExceptionToFirebase_sink_failure_escapes:
  "fst (reportExceptionToFirebase (\<lambda>name reason stack_trace s. (Some OtherException, s))
          example_platform (Some (runtime_error ''boom'')) [] ()) = Some OtherException"
  by (simp add: reportExceptionToFirebase_def runtime_error_def)

text \<open>
  Claim C5, amended. The reporter does not raise when the sink it calls does not raise: the
  exception it is given is rethrown and caught inside it.
\<close>

theorem reportExceptionToFirebase_returns_when_sink_returns:
  assumes "\<And>name reason stack_trace. fst (sink name reason stack_trace s) = None"
  shows "fst (reportExceptionToFirebase sink pf exceptionPtr stackTrace s) = None"
  using assms by (simp add: reportExceptionToFirebase_def split: option.split exn.split)

theorem reportExceptionToFirebase_returns_when_sink_returns_witness:
  "fst (reportExceptionToFirebase RecordException example_platform
          (Some (runtime_error ''boom'')) [] (initial_state :: int state)) = None"
  using reportExceptionToFirebase_returns_when_sink_returns
          [of "RecordException :: int state sink" initial_state example_platform
              "Some (runtime_error ''boom'')" "[]"]
  by (simp add: RecordException_def)

subsection \<open>Tasks\<close>

text \<open>
  Claim C1. An outer coroutine awaits a middle one, which awaits an inner one whose body
  throws \<open>e\<close>, and no body catches: the frames are \<open>h\<close>, \<open>h + 1\<close> and \<open>h + 2\<close>, created in this
  order. Each body may be suspended before it does anything: the inner and the middle one
  at most once, which is what the one \<open>handle.resume()\<close> of \<open>await_suspend\<close> makes up for, and
  the outer one \<open>a\<close> times, with at least \<open>a\<close> calls of \<open>run\<close> by the driver. The reporter is
  called three times, once for each frame, with the exception and with the trace that was
  captured when that frame was created; the sink receives the three records; the outer task
  is ready and gives the exception to \<open>runTask\<close>, which adds no report. (A callee that
  suspends more often is not finished when its \<open>co_await\<close> ends: see claim C4.)
\<close>

theorem uncaught_failure_is_reported_at_every_level:
  assumes "i \<le> 1" and "m \<le> 1" and "a \<le> n"
  shows "let inner = after_suspensions i (Throw e);
             middle = after_suspensions m (Await inner k2 Throw);
             outer = after_suspensions a (Await middle k1 Throw);
             (task, s0) = coroutine_call pf outer st;
             st' = (run pf task ^^ n) s0;
             h = next_handle st;
             c = captures st
         in reporter_calls st' = reporter_calls st @
              [(h + 2, Some e, trace_at pf (c + 2)),
               (h + 1, Some e, trace_at pf (c + 1)),
               (h, Some e, trace_at pf c)]
            \<and> crashlytics st' = crashlytics st @
              [sink_record pf e (trace_at pf (c + 2)),
               sink_record pf e (trace_at pf (c + 1)),
               sink_record pf e (trace_at pf c)]
            \<and> is_ready task st'
            \<and> fst (result task st') = Raises e
            \<and> runTask pf task st' = (Raises e, st')"
proof -
  let ?O = "Await (after_suspensions m (Await (after_suspensions i (Throw e)) k2 Throw)) k1 Throw"
  let ?task = "\<lparr>handle = Some (next_handle st)\<rparr>"
  let ?s = "snd (coroutine_call pf ?O st)"
  note three = coroutine_call_three_levels [OF assms(1,2), where pf = pf and e = e and ?k2.0 = k2 and ?k1.0 = k1 and st = st]
  have run: "(run pf ?task ^^ n) (snd (coroutine_call pf (after_suspensions a ?O) st)) = ?s"
    by (rule run_enough [OF assms(3) three(3)])
  have "runTask pf ?task ?s = (Raises e, ?s)"
    by (simp only: runTask_ready [OF three(3)] three(4))
  with three show ?thesis
    unfolding Let_def case_prod_beta fst_coroutine_call run by (intro conjI)
qed

theorem uncaught_failure_is_reported_at_every_level_witness:
  "(let (task, st') = coroutine_call example_platform topLevelTask initial_state
    in map (\<lambda>c. (fst c, fst (snd c), map address (snd (snd c)))) (reporter_calls st') =
         [(2, Some (runtime_error ''Exception from third level task''), [0x401136, 0x401200, 0x500002]),
          (1, Some (runtime_error ''Exception from third level task''), [0x401136, 0x401200, 0x500001]),
          (0, Some (runtime_error ''Exception from third level task''), [0x401136, 0x401200, 0x500000])]
       \<and> length (crashlytics st') = 3
       \<and> is_ready task st')
   \<and> (let (task, s0) = coroutine_call example_platform
          (Suspend (Await (Suspend (Await (Suspend thirdLevelTask) (\<lambda>r. CoReturn (r * 2)) Throw))
             (\<lambda>r. CoReturn 1) Throw)) initial_state;
          st' = (run example_platform task ^^ 2) s0
      in \<not> is_ready task s0
       \<and> map (\<lambda>c. (fst c, fst (snd c), map address (snd (snd c)))) (reporter_calls st') =
         [(2, Some (runtime_error ''Exception from third level task''), [0x401136, 0x401200, 0x500002]),
          (1, Some (runtime_error ''Exception from third level task''), [0x401136, 0x401200, 0x500001]),
          (0, Some (runtime_error ''Exception from third level task''), [0x401136, 0x401200, 0x500000])]
       \<and> length (crashlytics st') = 3
       \<and> is_ready task st'
       \<and> runTask example_platform task st' =
           (Raises (runtime_error ''Exception from third level task''), st'))"
proof -
  have a: "\<not> is_ready \<lparr>handle = Some 0\<rparr> (snd (coroutine_call example_platform
          (Suspend (Await (Suspend (Await (Suspend thirdLevelTask) (\<lambda>r. CoReturn (r * 2)) Throw))
             (\<lambda>r. CoReturn 1) Throw)) (initial_state :: int state)))"
    by (simp add: coroutine_call_Suspend is_ready_def handle_done_def body_state_simps
        initial_state_def)
  have n: "next_handle (initial_state :: int state) = 0" "captures (initial_state :: int state) = 0"
    "reporter_calls (initial_state :: int state) = []" "crashlytics (initial_state :: int state) = []"
    by (simp_all add: initial_state_def)
  have t: "map address (trace_at example_platform 0) = [0x401136, 0x401200, 0x500000]"
    "map address (trace_at example_platform 1) = [0x401136, 0x401200, 0x500001]"
    "map address (trace_at example_platform (Suc (Suc 0))) = [0x401136, 0x401200, 0x500002]"
    by (simp_all add: trace_at_def DEPTH_MAX_default_def current_eq example_platform_def)
  from a t
    uncaught_failure_is_reported_at_every_level
      [where i = 0 and m = 0 and a = 0 and n = 0 and pf = example_platform
         and e = "runtime_error ''Exception from third level task''"
         and ?k2.0 = "\<lambda>r. CoReturn (r * 2)" and ?k1.0 = "\<lambda>r. CoReturn 1"
         and st = "initial_state :: int state"]
    uncaught_failure_is_reported_at_every_level
      [where i = 1 and m = 1 and a = 1 and n = 2 and pf = example_platform
         and e = "runtime_error ''Exception from third level task''"
         and ?k2.0 = "\<lambda>r. CoReturn (r * 2)" and ?k1.0 = "\<lambda>r. CoReturn 1"
         and st = "initial_state :: int state"]
  show ?thesis
    by (simp add: topLevelTask_def secondLevelTask_def thirdLevelTask_def n
        case_prod_beta fst_coroutine_call Let_def del: exec.simps funpow.simps)
qed

text \<open>
  Claim C2. For the task of a coroutine called in the state \<open>st\<close> and then driven by \<open>n\<close>
  calls of \<open>run\<close>: the reporter calls for its frame are none while the task is not ready and
  none when it is ready with a value; they are exactly one when it is ready with an
  exception that left its body, with that exception and with the trace captured at the
  call. The frame keeps that trace, \<open>run\<close> on a ready task changes nothing, and the sink
  has received one record for each call of the reporter since \<open>st\<close>. For a task
  that another coroutine awaits, from its creation to its destruction by the awaiting
  expression: there is at most one reporter call for its frame, and when there is one, the
  awaiting body receives the reported exception, and the trace is the one of the creation.
\<close>

theorem reporter_called_at_most_once:
  "(let (task, s0) = coroutine_call pf b st;
        s = (run pf task ^^ n) s0;
        h = next_handle st
    in calls_since st s h =
         (if is_ready task s
          then (case fst (result task s) of
                  Raises e \<Rightarrow> [(h, Some e, trace_at pf (captures st))]
                | Returns v \<Rightarrow> []
                | Undefined_behaviour \<Rightarrow> [])
          else [])
       \<and> length (calls_since st s h) \<le> 1
       \<and> map_option promise_stackTrace (frames s h) = Some (trace_at pf (captures st))
       \<and> (is_ready task s \<longrightarrow> run pf task s = s)
       \<and> sink_follows pf st s)
   \<and> (let (x, st4) = await_callee pf b st;
           t = next_handle st
       in length (calls_since st st4 t) \<le> 1
          \<and> (case x of
                Raises e \<Rightarrow> calls_since st st4 t = []
                            \<or> calls_since st st4 t = [(t, Some e, trace_at pf (captures st))]
              | Returns v \<Rightarrow> calls_since st st4 t = []
              | Undefined_behaviour \<Rightarrow> False))"
proof -
  let ?task = "\<lparr>handle = Some (next_handle st)\<rparr>"
  let ?s = "(run pf ?task ^^ n) (fst (exec pf b (next_handle st) (body_state pf b st)))"
  have t: "tracked pf st ?s"
    using tracked_funpow [of pf st n b] by (simp add: coroutine_call_def)
  then obtain p where p: "frames ?s (next_handle st) = Some p"
    and tr: "promise_stackTrace p = trace_at pf (captures st)"
    and nn: "at_final_suspend p \<longrightarrow> promise_result p \<noteq> Exception_ptr None"
    and calls: "calls_since st ?s (next_handle st) = own_calls (next_handle st) p"
    by (auto simp: tracked_def split: option.splits)
  have "sink_follows pf st (snd (coroutine_call pf b st))"
    by (rule sink_follows_coroutine_call)
  moreover have "sink_follows pf (snd (coroutine_call pf b st))
      ((run pf ?task ^^ n) (snd (coroutine_call pf b st)))"
    by (rule sink_follows_funpow)
  ultimately have "sink_follows pf st ((run pf ?task ^^ n) (snd (coroutine_call pf b st)))"
    by (rule sink_follows_trans)
  then have sink: "sink_follows pf st ?s"
    by (simp add: coroutine_call_def)
  have ready: "is_ready ?task ?s = at_final_suspend p"
    using p by (simp add: is_ready_def handle_done_def)
  have res: "fst (result ?task ?s) = received p"
    using p by (simp add: result_simps received_def)
  have "calls_since st ?s (next_handle st) =
        (if is_ready ?task ?s
         then (case fst (result ?task ?s) of
                 Raises e \<Rightarrow> [(next_handle st, Some e, trace_at pf (captures st))]
               | Returns v \<Rightarrow> []
               | Undefined_behaviour \<Rightarrow> [])
         else [])"
    unfolding calls ready res using nn tr
    by (auto simp: own_calls_def received_def split: variant.split option.split)
  moreover have "length (calls_since st ?s (next_handle st)) \<le> 1"
    unfolding calls by (simp add: own_calls_def split: variant.split)
  moreover have "is_ready ?task ?s \<longrightarrow> run pf ?task ?s = ?s"
    by (simp add: is_ready_def run_def)
  ultimately have driven: "calls_since st ?s (next_handle st) =
        (if is_ready ?task ?s
         then (case fst (result ?task ?s) of
                 Raises e \<Rightarrow> [(next_handle st, Some e, trace_at pf (captures st))]
               | Returns v \<Rightarrow> []
               | Undefined_behaviour \<Rightarrow> [])
         else [])
       \<and> length (calls_since st ?s (next_handle st)) \<le> 1
       \<and> map_option promise_stackTrace (frames ?s (next_handle st)) = Some (trace_at pf (captures st))
       \<and> (is_ready ?task ?s \<longrightarrow> run pf ?task ?s = ?s)
       \<and> sink_follows pf st ?s"
    using p tr sink
    by simp
  obtain x st4 where ac: "await_callee pf b st = (x, st4)"
    by (cases "await_callee pf b st")
  from await_callee_step [of pf b st] runs_well [of pf] ac
  obtain new q where s: "step_of (next_handle st) st st4 new" and x: "x = received q"
    and ub: "received q \<noteq> Undefined_behaviour"
    and trq: "promise_stackTrace q = trace_at pf (captures st)"
    and own: "filter (\<lambda>c. fst c = next_handle st) new = own_calls (next_handle st) q"
    by auto
  from s own have cs: "calls_since st st4 (next_handle st) = own_calls (next_handle st) q"
    by (simp add: calls_since_def step_of_def)
  have awaited: "length (calls_since st st4 (next_handle st)) \<le> 1
          \<and> (case x of
                Raises e \<Rightarrow> calls_since st st4 (next_handle st) = []
                            \<or> calls_since st st4 (next_handle st) =
                                [(next_handle st, Some e, trace_at pf (captures st))]
              | Returns v \<Rightarrow> calls_since st st4 (next_handle st) = []
              | Undefined_behaviour \<Rightarrow> False)"
    unfolding cs x using ub trq
    by (auto simp: own_calls_def received_def split: variant.splits option.splits if_splits)
  from driven awaited show ?thesis
    unfolding coroutine_call_def Let_def ac prod.case by (rule conjI)
qed

theorem reporter_called_at_most_once_witness:
  "let (task, s0) = coroutine_call example_platform (Suspend (Throw OtherException)) (initial_state :: int state);
       s = (run example_platform task ^^ 2) s0
   in \<not> is_ready task s0
      \<and> calls_since initial_state s0 0 = []
      \<and> is_ready task s
      \<and> calls_since initial_state s 0 = [(0, Some OtherException, trace_at example_platform 0)]"
  using reporter_called_at_most_once
          [of example_platform "Suspend (Throw OtherException)" "initial_state :: int state" 0]
        reporter_called_at_most_once
          [of example_platform "Suspend (Throw OtherException)" "initial_state :: int state" 2]
  by (simp add: call_defs promise_defs initial_state_def run_def resume_def numeral_2_eq_2
      case_prod_beta Let_def calls_since_def)

text \<open>
  Claim C3 says that a body that awaits a failing task and catches the failure gives an
  outcome of its own choice and is not reported. It is reported when the outcome that its
  handler chooses is a failure: the handler of this outer coroutine throws another
  exception, and the reporter is called for the outer frame with that exception.
\<close>

theorem catching_body_that_throws_is_reported:
  "let outer = Await thirdLevelTask (\<lambda>r. CoReturn r) (\<lambda>e. Throw (runtime_error ''handler failed''));
       (task, st') = coroutine_call example_platform outer (initial_state :: int state)
   in is_ready task st'
      \<and> fst (result task st') = Raises (runtime_error ''handler failed'')
      \<and> calls_since initial_state st' 0 =
          [(0, Some (runtime_error ''handler failed''), trace_at example_platform 0)]
      \<and> calls_since initial_state st' 1 =
          [(1, Some (runtime_error ''Exception from third level task''), trace_at example_platform 1)]"
proof -
  let ?e = "runtime_error ''Exception from third level task''"
  let ?c = "\<lambda>e :: exn. (Throw (runtime_error ''handler failed'') :: int body)"
  have c: "?c ?e = Throw (runtime_error ''handler failed'')"
    by (rule refl)
  note two = coroutine_call_two_levels
      [where i = 0 and c = ?c and e = ?e and pf = example_platform and k = "\<lambda>r. CoReturn r"
         and st = "initial_state :: int state", OF _ c]
  have n: "next_handle (initial_state :: int state) = 0" "captures (initial_state :: int state) = 0"
    "reporter_calls (initial_state :: int state) = []" "frames (initial_state :: int state) = (\<lambda>h. None)"
    by (simp_all add: initial_state_def)
  show ?thesis
    unfolding Let_def case_prod_beta fst_coroutine_call thirdLevelTask_def
      calls_since_initial_state
    using two(1,4)
    by (simp add: n is_ready_def handle_done_def result_def del: exec.simps)
qed

text \<open>
  Claim C3, amended. The body of the outer coroutine awaits an inner coroutine, and the
  inner task is ready with the exception \<open>e\<close> when the \<open>co_await\<close> has called it and, if it
  was suspended, resumed it once. Then the body goes on in its handler \<open>c e\<close>, and whatever
  the handler does, the reporter is called exactly once for the inner frame, with \<open>e\<close> and
  the trace of the inner task. For the outer frame the reporter is called only when the
  outer task is ready with an exception of its own: once, with that exception and the
  trace of the outer task. A handler that returns \<open>v\<close> makes the outer task ready with \<open>v\<close>,
  with no call for the outer frame; a handler that throws \<open>e'\<close> makes it ready with \<open>e'\<close>,
  with the one call for \<open>e'\<close>.
\<close>

theorem caught_failure_is_reported_once_by_the_inner_task:
  assumes ready: "is_ready \<lparr>handle = Some (next_handle st + 1)\<rparr>
                    (await_state pf inner (body_state pf (Await inner k c) st))"
    and fails: "fst (result \<lparr>handle = Some (next_handle st + 1)\<rparr>
                       (await_state pf inner (body_state pf (Await inner k c) st))) = Raises e"
  shows "let (task, st') = coroutine_call pf (Await inner k c) st;
             h = next_handle st;
             (x, st4) = await_callee pf inner (body_state pf (Await inner k c) st)
         in x = Raises e
            \<and> st' = fst (exec pf (c e) h st4)
            \<and> calls_since st st4 h = []
            \<and> calls_since st st' (h + 1) = [(h + 1, Some e, trace_at pf (captures st + 1))]
            \<and> calls_since st st' h =
                 (if is_ready task st'
                  then (case fst (result task st') of
                          Raises e' \<Rightarrow> [(h, Some e', trace_at pf (captures st))]
                        | Returns v \<Rightarrow> []
                        | Undefined_behaviour \<Rightarrow> [])
                  else [])
            \<and> (\<forall>v. c e = CoReturn v \<longrightarrow>
                   is_ready task st' \<and> fst (result task st') = Returns v
                   \<and> calls_since st st' h = [])
            \<and> (\<forall>e'. c e = Throw e' \<longrightarrow>
                   is_ready task st' \<and> fst (result task st') = Raises e'
                   \<and> calls_since st st' h = [(h, Some e', trace_at pf (captures st))])"
proof -
  let ?h = "next_handle st"
  let ?outer = "Await inner k c"
  let ?st1 = "body_state pf ?outer st"
  let ?sta = "await_state pf inner ?st1"
  let ?st4 = "snd (await_callee pf inner ?st1)"
  let ?st' = "snd (coroutine_call pf ?outer st)"
  let ?task = "\<lparr>handle = Some ?h\<rparr>"
  let ?p0 = "\<lparr>promise_result = Exception_ptr None, promise_stackTrace = trace_at pf (captures st),
               at_final_suspend = False, resume_point = ?outer\<rparr>"
  from ready obtain p where p: "frames ?sta (Suc ?h) = Some p" and fin: "at_final_suspend p"
    by (auto simp: is_ready_def handle_done_def split: option.splits)
  from fails p fin have res: "promise_result p = Exception_ptr (Some e)"
    by (auto simp: result_simps split: variant.splits option.splits)
  from fin res have rec: "received p = Raises e"
    by (simp add: received_def)
  note ca = coroutine_call_Await [OF p]
  from ca(1) rec have x: "fst (await_callee pf inner ?st1) = Raises e"
    by simp
  from ca(9) rec have st': "?st' = fst (exec pf (c e) ?h ?st4)"
    by simp
  from ca(7) fin res ca(3)
  have inner4: "calls_since st ?st4 (Suc ?h) = [(Suc ?h, Some e, trace_at pf (Suc (captures st)))]"
    by (simp add: own_calls_def)
  have nf: "\<not> at_final_suspend ?p0"
    by simp
  from ca(5) have lt: "?h < next_handle ?st4" "Suc ?h < next_handle ?st4" "Suc ?h \<noteq> ?h"
    by simp_all
  have "calls_since st (fst (exec pf (c e) ?h ?st4)) (Suc ?h) = calls_since st ?st4 (Suc ?h)"
    by (rule calls_since_exec_other [OF ca(4) nf lt ca(6)])
  with inner4 st'
  have inner': "calls_since st ?st' (Suc ?h) = [(Suc ?h, Some e, trace_at pf (Suc (captures st)))]"
    by simp
  have own: "calls_since st ?st' ?h =
                 (if is_ready ?task ?st'
                  then (case fst (result ?task ?st') of
                          Raises e' \<Rightarrow> [(?h, Some e', trace_at pf (captures st))]
                        | Returns v \<Rightarrow> []
                        | Undefined_behaviour \<Rightarrow> [])
                  else [])"
    by (rule calls_since_coroutine_call)
  have ret: "is_ready ?task ?st' \<and> fst (result ?task ?st') = Returns v
             \<and> calls_since st ?st' ?h = []" if "c e = CoReturn v" for v
    using after_await_CoReturn [OF ca(4) ca(8) ca(6), where v = v and pf = pf] that
    unfolding st' by simp
  have thr: "is_ready ?task ?st' \<and> fst (result ?task ?st') = Raises e'
             \<and> calls_since st ?st' ?h = [(?h, Some e', trace_at pf (captures st))]"
    if "c e = Throw e'" for e'
    using after_await_Throw [OF ca(4) ca(8) ca(6), where e = e' and pf = pf] that
    unfolding st' by simp
  from x st' ca(8) inner' own ret thr show ?thesis
    unfolding Let_def
    by (simp add: coroutine_call_def case_prod_beta del: exec.simps)
qed

theorem caught_failure_is_reported_once_by_the_inner_task_witness:
  "(let (task, st') = coroutine_call example_platform handledExceptionTask initial_state
    in is_ready task st'
       \<and> fst (result task st') = Returns 1
       \<and> calls_since initial_state st' 0 = []
       \<and> calls_since initial_state st' 1 =
           [(1, Some (runtime_error ''Exception from third level task''), trace_at example_platform 1)])
   \<and> (let outer = Await (Suspend thirdLevelTask) (\<lambda>r. CoReturn r)
                     (\<lambda>e. case e of StdException name what \<Rightarrow> CoReturn 1 | OtherException \<Rightarrow> Throw e);
           (task, st') = coroutine_call example_platform outer initial_state
       in is_ready task st'
       \<and> fst (result task st') = Returns 1
       \<and> calls_since initial_state st' 0 = []
       \<and> calls_since initial_state st' 1 =
           [(1, Some (runtime_error ''Exception from third level task''), trace_at example_platform 1)])"
proof -
  let ?e = "runtime_error ''Exception from third level task''"
  let ?c = "\<lambda>e. case e of StdException name what \<Rightarrow> CoReturn (1::int) | OtherException \<Rightarrow> Throw e"
  let ?k = "\<lambda>r::int. CoReturn (1::int)"
  let ?k' = "\<lambda>r::int. CoReturn r"
  let ?second = "Await (Throw ?e) (\<lambda>r::int. CoReturn (r * 2)) Throw"
  let ?third = "Suspend (Throw ?e) :: int body"
  let ?st1 = "body_state example_platform (Await ?second ?k ?c) (initial_state :: int state)"
  let ?st2 = "body_state example_platform (Await ?third ?k' ?c) (initial_state :: int state)"
  have n: "next_handle (initial_state :: int state) = 0" "captures (initial_state :: int state) = 0"
    by (simp_all add: initial_state_def)
  have nh: "next_handle ?st1 = Suc 0" "next_handle ?st2 = Suc 0"
    by (simp_all add: body_state_simps n)
  have caught: "?c ?e = CoReturn 1"
    by (simp add: runtime_error_def)
  note two = coroutine_call_two_levels
      [where i = 0 and c = Throw and e = ?e and pf = example_platform
         and k = "\<lambda>r::int. CoReturn (r * 2)" and st = ?st1, OF _ refl]
  have r1: "is_ready \<lparr>handle = Some (next_handle ?st1)\<rparr>
              (snd (coroutine_call example_platform ?second ?st1))"
    using two(1) by (simp add: is_ready_def handle_done_def del: exec.simps)
  have f1: "fst (result \<lparr>handle = Some (next_handle ?st1)\<rparr>
              (snd (coroutine_call example_platform ?second ?st1))) = Raises ?e"
    using two(1) by (simp add: result_def is_ready_def handle_done_def del: exec.simps)
  have a1: "await_state example_platform ?second ?st1 =
              snd (coroutine_call example_platform ?second ?st1)"
    by (rule await_state_ready [OF r1])
  have a2: "await_state example_platform ?third ?st2 =
              snd (coroutine_call example_platform (Throw ?e) ?st2)"
    by (rule await_state_Suspend)
  have ready1: "is_ready \<lparr>handle = Some (next_handle (initial_state :: int state) + 1)\<rparr>
                  (await_state example_platform ?second ?st1)"
    using r1 unfolding a1 nh n by simp
  have fails1: "fst (result \<lparr>handle = Some (next_handle (initial_state :: int state) + 1)\<rparr>
                  (await_state example_platform ?second ?st1)) = Raises ?e"
    using f1 unfolding a1 nh n by simp
  have ready2: "is_ready \<lparr>handle = Some (next_handle (initial_state :: int state) + 1)\<rparr>
                  (await_state example_platform ?third ?st2)"
    unfolding a2 n by (simp add: is_ready_def handle_done_def coroutine_call_Throw nh)
  have fails2: "fst (result \<lparr>handle = Some (next_handle (initial_state :: int state) + 1)\<rparr>
                  (await_state example_platform ?third ?st2)) = Raises ?e"
    unfolding a2 n by (simp add: result_def is_ready_def handle_done_def coroutine_call_Throw nh)
  from caught_failure_is_reported_once_by_the_inner_task
      [OF ready1 fails1, unfolded Let_def case_prod_beta, THEN conjunct2, THEN conjunct2]
    caught_failure_is_reported_once_by_the_inner_task
      [OF ready2 fails2, unfolded Let_def case_prod_beta, THEN conjunct2, THEN conjunct2]
  show ?thesis
    by (simp add: handledExceptionTask_def secondLevelTask_def thirdLevelTask_def
        n caught case_prod_beta Let_def del: exec.simps)
qed

text \<open>
  Claim C4 says that the reporter is never called as a consequence of \<open>result\<close> on a task
  that is not ready. A \<open>co_await\<close> calls \<open>result\<close> in \<open>await_resume\<close>: when the callee is still
  suspended after the one \<open>handle.resume()\<close> of \<open>await_suspend\<close>, the exception is thrown in
  the awaiting body, and when that body does not catch it, the reporter is called for the
  awaiting frame with it.
\<close>

theorem result_before_ready_in_an_awaiting_body_is_reported:
  "let callee = Suspend (Suspend (CoReturn 1));
       outer = Await callee CoReturn Throw;
       s1 = body_state example_platform outer (initial_state :: int state);
       (task, st') = coroutine_call example_platform outer initial_state
   in \<not> is_ready \<lparr>handle = Some 1\<rparr> (await_state example_platform callee s1)
      \<and> fst (await_resume \<lparr>handle = Some 1\<rparr> (await_state example_platform callee s1)) =
          Raises (runtime_error ''TracedTask not completed'')
      \<and> is_ready task st'
      \<and> fst (result task st') = Raises (runtime_error ''TracedTask not completed'')
      \<and> calls_since initial_state st' 0 =
          [(0, Some (runtime_error ''TracedTask not completed''), trace_at example_platform 0)]"
proof -
  let ?callee = "Suspend (Suspend (CoReturn 1)) :: int body"
  let ?outer = "Await ?callee CoReturn Throw"
  let ?s1 = "body_state example_platform ?outer (initial_state :: int state)"
  have n: "next_handle (initial_state :: int state) = 0" "captures (initial_state :: int state) = 0"
    by (simp_all add: initial_state_def)
  have nh: "next_handle ?s1 = Suc 0"
    by (simp add: body_state_simps n)
  have a: "await_state example_platform ?callee ?s1 = body_state example_platform (CoReturn 1) ?s1"
    by (simp only: await_state_Suspend coroutine_call_Suspend)
  have nr: "\<not> is_ready \<lparr>handle = Some (Suc (next_handle (initial_state :: int state)))\<rparr>
              (await_state example_platform ?callee ?s1)"
    unfolding a n using not_ready_body_state [of ?s1 example_platform "CoReturn 1"]
    by (simp add: nh)
  from nr
  have ar: "fst (await_resume \<lparr>handle = Some (Suc 0)\<rparr> (await_state example_platform ?callee ?s1)) =
              Raises (runtime_error ''TracedTask not completed'')"
    by (simp add: n result_def await_resume_def)
  from nr ar coroutine_call_Await_unfinished(6) [OF nr refl]
  show ?thesis
    unfolding Let_def case_prod_beta fst_coroutine_call
    by (simp add: n del: exec.simps)
qed

text \<open>
  Claim C4, amended. \<open>result\<close> (and \<open>await_resume\<close>) on a task that is not ready throws the
  \<open>std::runtime_error\<close> with the message \<open>TracedTask not completed\<close>, and the state after
  the call is the state before it. For the task of a coroutine that was called and driven
  by \<open>n\<close> calls of \<open>run\<close> and is not ready, the reporter has not been called for its frame,
  before or after \<open>result\<close>. When a \<open>co_await\<close> finds its callee unfinished, the exception is
  thrown in the awaiting body, which goes on in its handler: the reporter is not called
  for the callee; a handler that returns a value leaves the awaiting frame without a call,
  and a handler that throws (the body that does not catch throws the exception itself)
  makes the awaiting task ready with the thrown exception, reported once with the trace of
  the awaiting task.
\<close>

theorem result_before_ready_throws_to_its_caller:
  "(\<not> is_ready task s \<longrightarrow>
      result task s = (Raises (runtime_error ''TracedTask not completed''), s)
      \<and> await_resume task s = (Raises (runtime_error ''TracedTask not completed''), s))
   \<and> (let (task, s0) = coroutine_call pf b st;
           s = (run pf task ^^ n) s0
       in \<not> is_ready task s \<longrightarrow>
            result task s = (Raises (runtime_error ''TracedTask not completed''), s)
            \<and> calls_since st (snd (result task s)) (next_handle st) = [])
   \<and> (let (task, st') = coroutine_call pf (Await callee k c) st;
           h = next_handle st;
           s1 = body_state pf (Await callee k c) st;
           (x, st4) = await_callee pf callee s1;
           e = runtime_error ''TracedTask not completed''
       in \<not> is_ready \<lparr>handle = Some (h + 1)\<rparr> (await_state pf callee s1) \<longrightarrow>
            x = Raises e
            \<and> st' = fst (exec pf (c e) h st4)
            \<and> calls_since st st4 h = []
            \<and> calls_since st st' (h + 1) = []
            \<and> (\<forall>v. c e = CoReturn v \<longrightarrow>
                   is_ready task st' \<and> fst (result task st') = Returns v
                   \<and> calls_since st st' h = [])
            \<and> (\<forall>e'. c e = Throw e' \<longrightarrow>
                   is_ready task st' \<and> fst (result task st') = Raises e'
                   \<and> calls_since st st' h = [(h, Some e', trace_at pf (captures st))]))"
proof (intro conjI)
  show "\<not> is_ready task s \<longrightarrow>
      result task s = (Raises (runtime_error ''TracedTask not completed''), s)
      \<and> await_resume task s = (Raises (runtime_error ''TracedTask not completed''), s)"
    by (simp add: result_def await_resume_def)
  show "let (task, s0) = coroutine_call pf b st;
           s = (run pf task ^^ n) s0
       in \<not> is_ready task s \<longrightarrow>
            result task s = (Raises (runtime_error ''TracedTask not completed''), s)
            \<and> calls_since st (snd (result task s)) (next_handle st) = []"
    unfolding Let_def case_prod_beta fst_coroutine_call
    using calls_since_not_ready [where st = st and pf = pf and n = n and b = b] by (simp add: result_def)
  show "let (task, st') = coroutine_call pf (Await callee k c) st;
           h = next_handle st;
           s1 = body_state pf (Await callee k c) st;
           (x, st4) = await_callee pf callee s1;
           e = runtime_error ''TracedTask not completed''
       in \<not> is_ready \<lparr>handle = Some (h + 1)\<rparr> (await_state pf callee s1) \<longrightarrow>
            x = Raises e
            \<and> st' = fst (exec pf (c e) h st4)
            \<and> calls_since st st4 h = []
            \<and> calls_since st st' (h + 1) = []
            \<and> (\<forall>v. c e = CoReturn v \<longrightarrow>
                   is_ready task st' \<and> fst (result task st') = Returns v
                   \<and> calls_since st st' h = [])
            \<and> (\<forall>e'. c e = Throw e' \<longrightarrow>
                   is_ready task st' \<and> fst (result task st') = Raises e'
                   \<and> calls_since st st' h = [(h, Some e', trace_at pf (captures st))])"
    unfolding Let_def case_prod_beta fst_coroutine_call
    using coroutine_call_Await_unfinished [where st = st and pf = pf and callee = callee and k = k and c = c]
    by (auto simp del: exec.simps)
qed

theorem result_before_ready_throws_to_its_caller_witness:
  "(let (task, s) = coroutine_call example_platform (Suspend (CoReturn 1)) (initial_state :: int state)
    in \<not> is_ready task s
       \<and> result task s = (Raises (runtime_error ''TracedTask not completed''), s))
   \<and> (let (task, s0) = coroutine_call example_platform (Suspend (Suspend (CoReturn 1)))
                          (initial_state :: int state);
           s = run example_platform task s0
       in \<not> is_ready task s
          \<and> result task s = (Raises (runtime_error ''TracedTask not completed''), s)
          \<and> calls_since initial_state s 0 = [])
   \<and> (let callee = Suspend (Suspend (CoReturn 1));
           outer = Await callee CoReturn Throw;
           s1 = body_state example_platform outer (initial_state :: int state);
           (task, st') = coroutine_call example_platform outer initial_state
       in \<not> is_ready \<lparr>handle = Some 1\<rparr> (await_state example_platform callee s1)
          \<and> is_ready task st'
          \<and> fst (result task st') = Raises (runtime_error ''TracedTask not completed'')
          \<and> calls_since initial_state st' 0 =
              [(0, Some (runtime_error ''TracedTask not completed''), trace_at example_platform 0)]
          \<and> calls_since initial_state st' 1 = [])"
proof -
  let ?callee = "Suspend (Suspend (CoReturn 1)) :: int body"
  let ?outer = "Await ?callee CoReturn Throw"
  let ?s1 = "body_state example_platform ?outer (initial_state :: int state)"
  let ?task = "\<lparr>handle = Some 0\<rparr>"
  let ?once = "snd (coroutine_call example_platform (Suspend (CoReturn 1)) (initial_state :: int state))"
  let ?susp = "snd (coroutine_call example_platform ?callee (initial_state :: int state))"
  have n: "next_handle (initial_state :: int state) = 0" "captures (initial_state :: int state) = 0"
    by (simp_all add: initial_state_def)
  have nh: "next_handle ?s1 = Suc 0"
    by (simp add: body_state_simps n)
  have nr1: "\<not> is_ready ?task ?once"
    unfolding coroutine_call_Suspend
    using not_ready_body_state [of "initial_state :: int state" example_platform "CoReturn 1"]
    by (simp add: n)
  have r: "run example_platform ?task ?susp = ?once"
    using run_after_suspensions [where pf = example_platform and st = "initial_state :: int state"
        and a = 1 and b = "Suspend (CoReturn 1)"]
    by (simp add: n del: exec.simps)
  have a: "await_state example_platform ?callee ?s1 = body_state example_platform (CoReturn 1) ?s1"
    by (simp only: await_state_Suspend coroutine_call_Suspend)
  have nr3: "\<not> is_ready \<lparr>handle = Some (next_handle (initial_state :: int state) + 1)\<rparr>
               (await_state example_platform ?callee ?s1)"
    unfolding a using not_ready_body_state [of ?s1 example_platform "CoReturn 1"]
    by (simp add: nh n)
  note w = result_before_ready_throws_to_its_caller
      [where task = ?task and s = ?once and pf = example_platform and b = ?callee and n = 1
         and st = "initial_state :: int state" and callee = ?callee and k = CoReturn and c = Throw,
       unfolded Let_def case_prod_beta fst_coroutine_call]
  from w [THEN conjunct1] nr1
  have p1: "result ?task ?once = (Raises (runtime_error ''TracedTask not completed''), ?once)"
    by simp
  from w [THEN conjunct2, THEN conjunct1] nr1
  have p2: "calls_since initial_state ?once 0 = []"
    by (simp add: r n p1 del: exec.simps)
  from w [THEN conjunct2, THEN conjunct2, THEN mp, OF nr3, THEN conjunct2, THEN conjunct2]
  have p3: "is_ready ?task (snd (coroutine_call example_platform ?outer initial_state))
         \<and> fst (result ?task (snd (coroutine_call example_platform ?outer initial_state))) =
             Raises (runtime_error ''TracedTask not completed'')
         \<and> calls_since initial_state (snd (coroutine_call example_platform ?outer initial_state)) 0 =
              [(0, Some (runtime_error ''TracedTask not completed''), trace_at example_platform 0)]
         \<and> calls_since initial_state (snd (coroutine_call example_platform ?outer initial_state)) 1 = []"
    by (simp add: n del: exec.simps)
  from nr1 nr3 p1 p2 p3 show ?thesis
    unfolding Let_def case_prod_beta fst_coroutine_call
    by (simp add: n r del: exec.simps)
qed

text \<open>
  Claim C7. A coroutine whose body awaits nothing and returns \<open>v\<close> has run to its end when
  the call returns: the task is ready, \<open>result\<close> gives \<open>v\<close>, and nothing is reported.
\<close>

theorem eager_task_is_ready:
  "let (task, st') = coroutine_call pf (CoReturn v) st
   in is_ready task st' \<and> result task st' = (Returns v, st')
      \<and> reporter_calls st' = reporter_calls st \<and> crashlytics st' = crashlytics st"
  by (simp add: call_defs promise_defs)

theorem eager_task_is_ready_witness:
  "let (task, st') = coroutine_call example_platform (CoReturn 42) (initial_state :: int state)
   in is_ready task st' \<and> fst (result task st') = Returns 42 \<and> reporter_calls st' = []"
  using eager_task_is_ready [of example_platform 42 "initial_state :: int state"]
  by (simp add: case_prod_beta initial_state_def)

text \<open>
  Claim C10. The task that a move construction leaves behind, and the argument of a move
  assignment to another task object, hold the null handle: such a task is not ready, \<open>run\<close>
  on it changes nothing, and \<open>result\<close> on it throws the exception that \<open>result\<close> throws on
  any task that is not ready. The move assignment gives the handle to \<open>*this\<close>, destroys the
  frame that \<open>*this\<close> owned and leaves the other task objects as they were. A task moved to
  itself is not moved from: nothing changes.
\<close>

theorem moved_from_task_is_safe:
  "(let (new, old) = move_construct task
    in handle new = handle task
       \<and> \<not> is_ready old st
       \<and> run pf old st = st
       \<and> result old st = (Raises (runtime_error ''TracedTask not completed''), st)
       \<and> (\<not> is_ready incomplete st \<longrightarrow> result incomplete st = result old st))
   \<and> (this \<noteq> other \<longrightarrow>
        (let (objects', st') = move_assign this other objects st
         in handle (objects' this) = handle (objects other)
            \<and> handle (objects' other) = None
            \<and> (\<forall>l. l \<noteq> this \<and> l \<noteq> other \<longrightarrow> objects' l = objects l)
            \<and> st' = destroy (objects this) st
            \<and> \<not> is_ready (objects' other) st'
            \<and> run pf (objects' other) st' = st'
            \<and> result (objects' other) st' =
                (Raises (runtime_error ''TracedTask not completed''), st')
            \<and> (\<not> is_ready incomplete st' \<longrightarrow>
                 result incomplete st' = result (objects' other) st')))
   \<and> move_assign this this objects st = (objects, st)"
  by (simp add: move_construct_def move_assign_def is_ready_def run_def result_def)

theorem moved_from_task_is_safe_witness:
  "(let (task, st) = coroutine_call example_platform (CoReturn 42) (initial_state :: int state);
        (new, old) = move_construct task
    in is_ready new st
       \<and> \<not> is_ready old st
       \<and> run example_platform old st = st
       \<and> fst (result old st) = Raises (runtime_error ''TracedTask not completed'')
       \<and> fst (result new st) = Returns 42)
   \<and> (let (t0, st0) = coroutine_call example_platform (CoReturn 7) (initial_state :: int state);
           (t1, st1) = coroutine_call example_platform (CoReturn 42) st0;
           objects = (\<lambda>l. \<lparr>handle = None\<rparr>)(0 := t0, 1 := t1);
           (objects', st') = move_assign 0 1 objects st1
       in handle (objects 1) = Some 1
          \<and> is_ready (objects 1) st1
          \<and> handle (objects' 0) = Some 1
          \<and> fst (result (objects' 0) st') = Returns 42
          \<and> frames st' 0 = None
          \<and> handle (objects' 1) = None
          \<and> \<not> is_ready (objects' 1) st'
          \<and> run example_platform (objects' 1) st' = st'
          \<and> fst (result (objects' 1) st') = Raises (runtime_error ''TracedTask not completed''))"
proof -
  let ?single = "snd (coroutine_call example_platform (CoReturn 42) (initial_state :: int state))"
  let ?first = "snd (coroutine_call example_platform (CoReturn 7) (initial_state :: int state))"
  let ?second = "snd (coroutine_call example_platform (CoReturn 42) ?first)"
  let ?objects = "(\<lambda>l. \<lparr>handle = None\<rparr>)(0 := \<lparr>handle = Some 0\<rparr>, 1 := \<lparr>handle = Some (Suc 0)\<rparr>)
                    :: nat \<Rightarrow> TracedTask"
  have a: "is_ready \<lparr>handle = Some 0\<rparr> ?single" "fst (result \<lparr>handle = Some 0\<rparr> ?single) = Returns 42"
    by (simp_all add: call_defs promise_defs initial_state_def)
  have n0: "next_handle ?first = Suc 0"
    by (simp add: call_defs promise_defs initial_state_def)
  have b: "is_ready \<lparr>handle = Some (Suc 0)\<rparr> ?second"
    "fst (result \<lparr>handle = Some (Suc 0)\<rparr> (destroy \<lparr>handle = Some 0\<rparr> ?second)) = Returns 42"
    "frames (destroy \<lparr>handle = Some 0\<rparr> ?second) 0 = None"
    by (simp_all add: call_defs promise_defs initial_state_def)
  note w = moved_from_task_is_safe
      [where task = "\<lparr>handle = Some 0\<rparr>" and st = ?single and pf = example_platform
         and incomplete = "\<lparr>handle = None\<rparr>", THEN conjunct1]
    moved_from_task_is_safe
      [where this = 0 and other = 1 and objects = ?objects and st = ?second and pf = example_platform
         and incomplete = "\<lparr>handle = None\<rparr>", THEN conjunct2, THEN conjunct1]
  have n: "next_handle (initial_state :: int state) = 0"
    by (simp add: initial_state_def)
  from w a b show ?thesis
    by (simp add: fst_coroutine_call n n0 move_construct_def move_assign_def case_prod_beta
        Let_def del: exec.simps)
qed

end
